theory Spec2Isabelle
  imports Main "HOL-Library.Word" "HOL-Library.Sublist"
begin

section \<open>Python values and errors\<close>

text \<open>
  The exceptions the utilities of \<^verbatim>\<open>opyplus/util.py\<close> raise or let through, as values.
  The payload is the message (for \<^verbatim>\<open>PermissionError\<close> the path, for \<^verbatim>\<open>LookupError\<close> the
  encoding the message names).
\<close>

datatype py_error =
    ValueError string
  | FileNotFoundError string
  | UnicodeDecodeError string
  | PermissionError string
  | LookupError string
  | OSError string

section \<open>Version strings\<close>

text \<open>
  \<^verbatim>\<open>str.split(".")\<close>: one piece more than there are dots, empty pieces kept.
\<close>

fun split_dot :: "string \<Rightarrow> string list" where
  "split_dot [] = [[]]"
| "split_dot (c # cs) =
     (if c = CHR ''.'' then [] # split_dot cs
      else (case split_dot cs of
              [] \<Rightarrow> [[c]]
            | p # ps \<Rightarrow> (c # p) # ps))"

text \<open>
  \<^verbatim>\<open>int(v)\<close> on a string, base 10, for ASCII text: surrounding white space is
  stripped, one sign is allowed, then decimal digits follow, where single underscores may
  stand between two digits. Anything else raises \<^verbatim>\<open>ValueError\<close>, and so does (from
  Python 3.11 on, with the default setting) a string of more than 4300 digits.
\<close>

definition is_space :: "char \<Rightarrow> bool" where
  "is_space c = (c = CHR '' '' \<or> c = CHR 0x09 \<or> c = CHR 0x0A \<or> c = CHR 0x0B
                 \<or> c = CHR 0x0C \<or> c = CHR 0x0D)"

definition strip :: "string \<Rightarrow> string" where
  "strip s = rev (dropWhile is_space (rev (dropWhile is_space s)))"

definition is_digit :: "char \<Rightarrow> bool" where
  "is_digit c = (48 \<le> (of_char c :: nat) \<and> (of_char c :: nat) \<le> 57)"

definition digit_value :: "char \<Rightarrow> int" where
  "digit_value c = int (of_char c) - 48"

fun parse_digits :: "bool \<Rightarrow> int \<Rightarrow> string \<Rightarrow> int option" where
  "parse_digits after_digit acc [] = (if after_digit then Some acc else None)"
| "parse_digits after_digit acc (c # cs) =
     (if is_digit c then parse_digits True (10 * acc + digit_value c) cs
      else if c = CHR ''_'' \<and> after_digit then parse_digits False acc cs
      else None)"

definition invalid_literal :: py_error where
  "invalid_literal = ValueError ''invalid literal for int() with base 10''"

definition max_str_digits :: nat where
  "max_str_digits = 4300"

definition py_int :: "string \<Rightarrow> py_error + int" where
  "py_int s =
     (if max_str_digits < length (filter is_digit (strip s))
      then Inl (ValueError ''Exceeds the limit for integer string conversion'')
      else
        (case strip s of
           [] \<Rightarrow> Inl invalid_literal
         | c # cs \<Rightarrow>
             (if c = CHR ''-'' then
                (case parse_digits False 0 cs of
                   None \<Rightarrow> Inl invalid_literal | Some v \<Rightarrow> Inr (- v))
              else if c = CHR ''+'' then
                (case parse_digits False 0 cs of
                   None \<Rightarrow> Inl invalid_literal | Some v \<Rightarrow> Inr v)
              else
                (case parse_digits False 0 (c # cs) of
                   None \<Rightarrow> Inl invalid_literal | Some v \<Rightarrow> Inr v))))"

text \<open>
  The list comprehension \<^verbatim>\<open>[int(v) for v in ...]\<close>: the first component that does not
  parse raises, and nothing is returned.
\<close>

fun int_each :: "string list \<Rightarrow> py_error + int list" where
  "int_each [] = Inr []"
| "int_each (v # vs) =
     (case py_int v of
        Inl e \<Rightarrow> Inl e
      | Inr n \<Rightarrow> (case int_each vs of Inl e \<Rightarrow> Inl e | Inr ns \<Rightarrow> Inr (n # ns)))"

text \<open>
  \<^verbatim>\<open>version_str_to_version\<close>. The returned tuple is the list of its components.
\<close>

definition version_str_to_version :: "string \<Rightarrow> py_error + int list" where
  "version_str_to_version version_str =
     (case int_each (split_dot version_str) of
        Inl e \<Rightarrow> Inl e
      | Inr vs \<Rightarrow>
          (let raw_version = vs @ [0] in
           if length raw_version < 3
           then Inl (ValueError (''incorrect format: '' @ version_str))
           else Inr (take 3 raw_version)))"

text \<open>\<^verbatim>\<open>".".join(parts)\<close>, to write down a version string from its components.\<close>

fun join_dot :: "string list \<Rightarrow> string" where
  "join_dot [] = []"
| "join_dot [p] = p"
| "join_dot (p # q # ps) = p @ CHR ''.'' # join_dot (q # ps)"

section \<open>The buffer resolver\<close>

text \<open>
  What \<^verbatim>\<open>get_string_buffer\<close> and \<^verbatim>\<open>to_buffer\<close> are handed is any Python value; the
  \<^verbatim>\<open>isinstance\<close> tests of the source read its class. A text stream is an in-memory
  \<^verbatim>\<open>io.StringIO\<close> (its text and the read position) or the handle \<^verbatim>\<open>open\<close> returns for a
  path, which records the encoding (\<open>None\<close>: the locale's) and the error policy it
  decodes with. A byte stream is the bytes \<^verbatim>\<open>read()\<close> has yet to return.
\<close>

type_synonym path = string
type_synonym bytes = "8 word list"

record string_io =
  text_value :: string
  pos :: nat

datatype errors_policy = Strict | Ignore

datatype text_stream =
    StringIO string_io
  | TextIOWrapper path "string option" errors_policy

datatype byte_stream = BytesIO bytes

datatype pyval =
    Str string
  | TextIOBase text_stream
  | Bytes bytes
  | BufferedIOBase byte_stream
  | NoneVal
  | IntVal int
  | ObjectVal nat

text \<open>
  What the functions use and this repository does not define: the configured encoding
  \<^verbatim>\<open>CONF.encoding\<close>; the regular files of the file system, each with its content and
  whether this process may open it; the codec behind \<^verbatim>\<open>bytes.decode\<close> (strict) and
  the one a file opened with \<^verbatim>\<open>errors="ignore"\<close> reads with; the encodings Python has a
  codec for; the encoding of the locale; and \<^verbatim>\<open>chardet.detect\<close>, which returns an
  encoding label or \<^verbatim>\<open>None\<close>.
\<close>

record regular_file =
  may_open :: bool
  file_content :: bytes

record env =
  conf_encoding :: string
  fs :: "path \<Rightarrow> regular_file option"
  decode :: "string \<Rightarrow> bytes \<Rightarrow> py_error + string"
  decode_ignore :: "string \<Rightarrow> bytes \<Rightarrow> string"
  known_codec :: "string \<Rightarrow> bool"
  locale_encoding :: string
  detect :: "bytes \<Rightarrow> string option"

text \<open>\<^verbatim>\<open>os.path.isfile\<close> asks whether a regular file is there, not whether it can be
  opened.\<close>

definition isfile :: "env \<Rightarrow> path \<Rightarrow> bool" where
  "isfile e p = (fs e p \<noteq> None)"

text \<open>
  \<^verbatim>\<open>open(path, encoding=..., errors=...)\<close> in text mode: the file is opened first
  (\<^verbatim>\<open>FileNotFoundError\<close>, \<^verbatim>\<open>PermissionError\<close>), then the codec is looked up
  (\<^verbatim>\<open>LookupError\<close> for an encoding Python does not know). Nothing is decoded before the
  stream is read.
\<close>

definition py_open ::
  "env \<Rightarrow> path \<Rightarrow> string option \<Rightarrow> errors_policy \<Rightarrow> py_error + text_stream" where
  "py_open e p encoding errors =
     (case fs e p of
        None \<Rightarrow> Inl (FileNotFoundError p)
      | Some f \<Rightarrow>
          (if \<not> may_open f then Inl (PermissionError p)
           else
             (case encoding of
                None \<Rightarrow> Inr (TextIOWrapper p encoding errors)
              | Some c \<Rightarrow>
                  (if known_codec e c then Inr (TextIOWrapper p encoding errors)
                   else Inl (LookupError c)))))"

text \<open>\<^verbatim>\<open>io.StringIO(initial_value)\<close> starts at position 0; \<^verbatim>\<open>read()\<close> returns the text
  from the position to the end and moves the position there.\<close>

definition new_string_io :: "string \<Rightarrow> string_io" where
  "new_string_io s = \<lparr>text_value = s, pos = 0\<rparr>"

definition read_string_io :: "string_io \<Rightarrow> string \<times> string_io" where
  "read_string_io b = (drop (pos b) (text_value b), b\<lparr>pos := length (text_value b)\<rparr>)"

definition read_bytes :: "byte_stream \<Rightarrow> bytes" where
  "read_bytes b = (case b of BytesIO content \<Rightarrow> content)"

text \<open>The slice \<^verbatim>\<open>s[-k:]\<close> for \<open>k > 0\<close>: the last \<open>k\<close> characters, all of \<open>s\<close> when it
  is shorter.\<close>

definition last_chars :: "nat \<Rightarrow> string \<Rightarrow> string" where
  "last_chars k s = drop (length s - k) s"

text \<open>\<^verbatim>\<open>get_string_buffer\<close> (the same text in \<^verbatim>\<open>oplus/util.py\<close> and
  \<^verbatim>\<open>opyplus/util.py\<close>). It returns the pair \<^verbatim>\<open>(buffer, path)\<close>.\<close>

definition get_string_buffer ::
  "env \<Rightarrow> pyval \<Rightarrow> string \<Rightarrow> py_error + (text_stream \<times> path option)" where
  "get_string_buffer e path_or_content expected_extension =
     (case path_or_content of
        Str s \<Rightarrow>
          (if last_chars (length expected_extension + 1) s = CHR ''.'' # expected_extension
           then
             (if \<not> isfile e s
              then Inl (FileNotFoundError
                          (''No file at given path: '' @ CHR 0x27 # s @ [CHR 0x27, CHR ''.'']))
              else
                (case py_open e s (Some (conf_encoding e)) Strict of
                   Inl err \<Rightarrow> Inl err
                 | Inr buffer \<Rightarrow> Inr (buffer, Some s)))
           else Inr (StringIO (new_string_io s), None))
      | TextIOBase t \<Rightarrow> Inr (t, None)
      | Bytes b \<Rightarrow>
          (case decode e (conf_encoding e) b of
             Inl err \<Rightarrow> Inl err
           | Inr t \<Rightarrow> Inr (StringIO (new_string_io t), None))
      | BufferedIOBase bs \<Rightarrow>
          (case decode e (conf_encoding e) (read_bytes bs) of
             Inl err \<Rightarrow> Inl err
           | Inr t \<Rightarrow> Inr (StringIO (new_string_io t), None))
      | _ \<Rightarrow> Inl (ValueError ''path_or_content type could not be identified''))"

text \<open>\<^verbatim>\<open>to_buffer\<close> of \<^verbatim>\<open>opyplus/util.py\<close>: the file is read as bytes, the encoding is
  detected from them, and the file is opened with it and \<^verbatim>\<open>errors="ignore"\<close>. It returns
  the pair \<^verbatim>\<open>(path, buffer)\<close>; the buffer of the second branch is the argument itself.
  \<^verbatim>\<open>read_binary\<close> is \<^verbatim>\<open>open(path, "rb")\<close> followed by \<^verbatim>\<open>f.read()\<close>.\<close>

definition read_binary :: "env \<Rightarrow> path \<Rightarrow> py_error + bytes" where
  "read_binary e p =
     (case fs e p of
        None \<Rightarrow> Inl (FileNotFoundError p)
      | Some f \<Rightarrow> (if may_open f then Inr (file_content f) else Inl (PermissionError p)))"

definition to_buffer :: "env \<Rightarrow> pyval \<Rightarrow> py_error + (path option \<times> pyval)" where
  "to_buffer e buffer_or_path =
     (case buffer_or_path of
        Str s \<Rightarrow>
          (if \<not> isfile e s
           then Inl (FileNotFoundError (''no file found at given path: '' @ s))
           else
             (case read_binary e s of
                Inl err \<Rightarrow> Inl err
              | Inr raw \<Rightarrow>
                  (let encoding = detect e raw
                   in (case py_open e s encoding Ignore of
                         Inl err \<Rightarrow> Inl err
                       | Inr buffer \<Rightarrow> Inr (Some s, TextIOBase buffer)))))
      | v \<Rightarrow> Inr (None, v))"

text \<open>\<^verbatim>\<open>to_buffer\<close> of \<^verbatim>\<open>oplus/util.py\<close>, the earlier revision: the file is opened with
  the configured encoding.\<close>

definition oplus_to_buffer :: "env \<Rightarrow> pyval \<Rightarrow> py_error + (path option \<times> pyval)" where
  "oplus_to_buffer e buffer_or_path =
     (case buffer_or_path of
        Str s \<Rightarrow>
          (if \<not> isfile e s
           then Inl (FileNotFoundError (''no file found at given path: '' @ s))
           else
             (case py_open e s (Some (conf_encoding e)) Strict of
                Inl err \<Rightarrow> Inl err
              | Inr buffer \<Rightarrow> Inr (Some s, TextIOBase buffer)))
      | v \<Rightarrow> Inr (None, v))"

text \<open>
  Reading a text stream to its end. A file opened in text mode decodes its bytes with the
  encoding of the handle (the locale's when that is \<^verbatim>\<open>None\<close>) and its error policy, and
  turns every line ending (carriage return and line feed, or a carriage return alone) into
  a line feed.
\<close>

fun universal_newlines :: "string \<Rightarrow> string" where
  "universal_newlines [] = []"
| "universal_newlines [c] = (if c = CHR 0x0D then [CHR 0x0A] else [c])"
| "universal_newlines (c # d # cs) =
     (if c = CHR 0x0D \<and> d = CHR 0x0A then CHR 0x0A # universal_newlines cs
      else if c = CHR 0x0D then CHR 0x0A # universal_newlines (d # cs)
      else c # universal_newlines (d # cs))"

definition read_text :: "env \<Rightarrow> text_stream \<Rightarrow> py_error + string" where
  "read_text e stream =
     (case stream of
        StringIO b \<Rightarrow> Inr (fst (read_string_io b))
      | TextIOWrapper p encoding errors \<Rightarrow>
          (case read_binary e p of
             Inl err \<Rightarrow> Inl err
           | Inr raw \<Rightarrow>
               (let codec = (case encoding of None \<Rightarrow> locale_encoding e | Some c \<Rightarrow> c)
                in (case errors of
                      Strict \<Rightarrow>
                        (case decode e codec raw of
                           Inl err \<Rightarrow> Inl err
                         | Inr t \<Rightarrow> Inr (universal_newlines t))
                    | Ignore \<Rightarrow> Inr (universal_newlines (decode_ignore e codec raw))))))"

text \<open>
  An environment to evaluate the functions in. Latin-1 is configured. The files:
  \<^verbatim>\<open>a.idf\<close> holds the two bytes of \<^verbatim>\<open>hi\<close>; \<^verbatim>\<open>u.idf\<close> holds \<^verbatim>\<open>h\<close> and the two bytes
  \<^verbatim>\<open>C3 A9\<close> (an e with acute accent in UTF-8); \<^verbatim>\<open>v.idf\<close> holds bytes for which the
  detector answers \<^verbatim>\<open>VISCII\<close>, an encoding Python has no codec for; \<^verbatim>\<open>locked.idf\<close>
  exists and may not be opened. The codecs are Latin-1 (each byte is the character of its
  number), ASCII, and UTF-8 as far as the characters of the model go (code points below
  256).
\<close>

definition latin1 :: "bytes \<Rightarrow> string" where
  "latin1 b = map (\<lambda>w. char_of (unat w)) b"

definition two_byte_char :: "8 word \<Rightarrow> 8 word \<Rightarrow> char" where
  "two_byte_char lead cont = char_of ((unat lead - 0xC0) * 64 + (unat cont - 0x80))"

definition two_byte_sequence :: "8 word \<Rightarrow> 8 word \<Rightarrow> bool" where
  "two_byte_sequence lead cont = ((lead = 0xC2 \<or> lead = 0xC3) \<and> 0x80 \<le> cont \<and> cont < 0xC0)"

fun utf8_strict :: "bytes \<Rightarrow> string option" where
  "utf8_strict [] = Some []"
| "utf8_strict [b] = (if b < 0x80 then Some [char_of (unat b)] else None)"
| "utf8_strict (b # c # bs) =
     (if b < 0x80 then map_option (\<lambda>t. char_of (unat b) # t) (utf8_strict (c # bs))
      else if two_byte_sequence b c
      then map_option (\<lambda>t. two_byte_char b c # t) (utf8_strict bs)
      else None)"

fun utf8_ignore :: "bytes \<Rightarrow> string" where
  "utf8_ignore [] = []"
| "utf8_ignore [b] = (if b < 0x80 then [char_of (unat b)] else [])"
| "utf8_ignore (b # c # bs) =
     (if b < 0x80 then char_of (unat b) # utf8_ignore (c # bs)
      else if two_byte_sequence b c then two_byte_char b c # utf8_ignore bs
      else utf8_ignore (c # bs))"

definition example_files :: "path \<Rightarrow> regular_file option" where
  "example_files p =
     (if p = ''a.idf'' then Some \<lparr>may_open = True, file_content = [0x68, 0x69]\<rparr>
      else if p = ''u.idf'' then Some \<lparr>may_open = True, file_content = [0x68, 0xC3, 0xA9]\<rparr>
      else if p = ''v.idf'' then Some \<lparr>may_open = True, file_content = [0x74, 0xD5, 0x6E]\<rparr>
      else if p = ''locked.idf'' then Some \<lparr>may_open = False, file_content = [0x68, 0x69]\<rparr>
      else None)"

definition example_decode :: "string \<Rightarrow> bytes \<Rightarrow> py_error + string" where
  "example_decode codec b =
     (if codec = ''latin-1'' then Inr (latin1 b)
      else if codec = ''UTF-8'' then
        (case utf8_strict b of
           None \<Rightarrow> Inl (UnicodeDecodeError ''invalid start byte'')
         | Some t \<Rightarrow> Inr t)
      else if codec = ''ASCII'' then
        (if list_all (\<lambda>w. w < 0x80) b then Inr (latin1 b)
         else Inl (UnicodeDecodeError ''ordinal not in range(128)''))
      else Inl (LookupError codec))"

definition example_decode_ignore :: "string \<Rightarrow> bytes \<Rightarrow> string" where
  "example_decode_ignore codec b =
     (if codec = ''UTF-8'' then utf8_ignore b
      else if codec = ''ASCII'' then latin1 (filter (\<lambda>w. w < 0x80) b)
      else latin1 b)"

definition example_detect :: "bytes \<Rightarrow> string option" where
  "example_detect b =
     (if b = [0x68, 0xC3, 0xA9] then Some ''UTF-8''
      else if b = [0x74, 0xD5, 0x6E] then Some ''VISCII''
      else Some ''ASCII'')"

definition example_env :: env where
  "example_env =
     \<lparr>conf_encoding = ''latin-1'',
      fs = example_files,
      decode = example_decode,
      decode_ignore = example_decode_ignore,
      known_codec = (\<lambda>codec. codec = ''latin-1'' \<or> codec = ''UTF-8'' \<or> codec = ''ASCII''),
      locale_encoding = ''UTF-8'',
      detect = example_detect\<rparr>"

section \<open>The stream relay\<close>

text \<open>
  The source of a relay is the list of what its successive \<^verbatim>\<open>readline()\<close> calls do
  before the end of the stream: return a line, or raise. Once the list is used up the
  stream is at its end and \<^verbatim>\<open>readline()\<close> returns the empty string.
\<close>

type_synonym source = "(py_error + string) list"

definition readline :: "source \<Rightarrow> (py_error + string) \<times> source" where
  "readline rs = (case rs of [] \<Rightarrow> (Inr [], []) | x # rest \<Rightarrow> (x, rest))"

text \<open>
  A sink records, in order, what is done to it. Whether it has a \<^verbatim>\<open>flush\<close> attribute is
  a property of the object.
\<close>

datatype sink_event = Write string | Flush

record sink =
  has_flush :: bool
  received :: "sink_event list"

definition sink_write :: "string \<Rightarrow> sink \<Rightarrow> sink" where
  "sink_write content d = d\<lparr>received := received d @ [Write content]\<rparr>"

definition sink_flush :: "sink \<Rightarrow> sink" where
  "sink_flush d = d\<lparr>received := received d @ [Flush]\<rparr>"

text \<open>The state \<^verbatim>\<open>_redirect_stream\<close> works on: its source, its destination, and the
  messages it has passed to \<^verbatim>\<open>logger.error\<close>.\<close>

record relay =
  src :: source
  dst :: sink
  logged :: "string list"

text \<open>A relay task is running, or has finished: by leaving the loop (\<open>None\<close>) or by an
  exception that \<^verbatim>\<open>_redirect_stream\<close> does not catch.\<close>

datatype task = Running relay | Finished "py_error option" relay

text \<open>The lines after the \<^verbatim>\<open>try\<close> statement: \<^verbatim>\<open>break\<close> on the empty string, else write
  and flush.\<close>

definition forward :: "string \<Rightarrow> relay \<Rightarrow> task" where
  "forward content r =
     (if content = [] then Finished None r
      else
        (let d = sink_write content (dst r)
         in Running (r\<lparr>dst := (if has_flush d then sink_flush d else d)\<rparr>)))"

text \<open>
  One evaluation of the loop test \<^verbatim>\<open>not stop_event.is_set()\<close>, where \<open>is_set\<close> is what
  the event answers, followed, when the loop goes on, by one pass through its body.
\<close>

definition iteration :: "bool \<Rightarrow> relay \<Rightarrow> task" where
  "iteration is_set r =
     (if is_set then Finished None r
      else
        (case readline (src r) of
           (Inl (UnicodeDecodeError m), rest) \<Rightarrow>
             forward ''unicode decode error'' (r\<lparr>src := rest, logged := logged r @ [m]\<rparr>)
         | (Inl e, rest) \<Rightarrow> Finished (Some e) (r\<lparr>src := rest\<rparr>)
         | (Inr content, rest) \<Rightarrow> forward content (r\<lparr>src := rest\<rparr>)))"

text \<open>
  \<^verbatim>\<open>_redirect_stream\<close>, run on its own: \<open>stop k\<close> is what \<^verbatim>\<open>stop_event.is_set()\<close>
  answers the \<open>k\<close>-th time the loop asks (the event is set by another thread). The result
  is the exception that ended the task, if any, and the final state.
\<close>

function redirect_stream_worker :: "(nat \<Rightarrow> bool) \<Rightarrow> relay \<Rightarrow> py_error option \<times> relay" where
  "redirect_stream_worker stop r =
     (case iteration (stop 0) r of
        Finished e r' \<Rightarrow> (e, r')
      | Running r' \<Rightarrow> redirect_stream_worker (\<lambda>k. stop (Suc k)) r')"
  by pat_completeness auto
termination
  by (relation "measure (\<lambda>(stop, r). length (src r))")
    (auto simp: iteration_def forward_def readline_def Let_def
       split: if_splits list.splits sum.splits py_error.splits)

text \<open>
  \<^verbatim>\<open>redirect_stream\<close>, the context manager, with the thread it starts. The main thread
  enters (creates the event, starts the thread), is in the body of the \<^verbatim>\<open>with\<close>
  statement, reaches \<^verbatim>\<open>finally\<close> (however the body ended), has set the event and waits
  in \<^verbatim>\<open>t.join()\<close>, and has left. \<^verbatim>\<open>t.join()\<close> returns only once the thread has ended.
\<close>

datatype main_pc = Entering | InBody | InFinally | Joining | Released

record session =
  main :: main_pc
  thread :: "task option"
  stop_event :: bool
  work :: relay

definition enter :: "relay \<Rightarrow> session" where
  "enter r = \<lparr>main = Entering, thread = None, stop_event = False, work = r\<rparr>"

text \<open>
  The two threads interleave; a schedule names, step by step, the thread that acts next.
  A step of the relay thread is one \<^verbatim>\<open>iteration\<close> with the value the event has at that
  moment (the body of the loop reads nothing either thread writes but the event, in the
  loop test). A thread that cannot act (the main thread blocked in \<^verbatim>\<open>join\<close>, a thread
  that has ended or has not been started) leaves the state as it is.
\<close>

datatype actor = MainThread | RelayThread

fun act :: "actor \<Rightarrow> session \<Rightarrow> session" where
  "act MainThread s =
     (case main s of
        Entering \<Rightarrow> s\<lparr>main := InBody, thread := Some (Running (work s))\<rparr>
      | InBody \<Rightarrow> s\<lparr>main := InFinally\<rparr>
      | InFinally \<Rightarrow> s\<lparr>main := Joining, stop_event := True\<rparr>
      | Joining \<Rightarrow>
          (case thread s of
             Some (Finished e r) \<Rightarrow> s\<lparr>main := Released\<rparr>
           | _ \<Rightarrow> s)
      | Released \<Rightarrow> s)"
| "act RelayThread s =
     (case thread s of
        Some (Running r) \<Rightarrow> s\<lparr>thread := Some (iteration (stop_event s) r)\<rparr>
      | _ \<Rightarrow> s)"

definition run_schedule :: "actor list \<Rightarrow> session \<Rightarrow> session" where
  "run_schedule schedule s = foldl (\<lambda>s a. act a s) s schedule"

text \<open>What a sink receives for the contents forwarded to it, and what is forwarded for
  one \<^verbatim>\<open>readline()\<close> call.\<close>

definition deliveries :: "bool \<Rightarrow> string list \<Rightarrow> sink_event list" where
  "deliveries flushes contents =
     concat (map (\<lambda>c. if flushes then [Write c, Flush] else [Write c]) contents)"

fun forwarded :: "py_error + string \<Rightarrow> string" where
  "forwarded (Inr line) = line"
| "forwarded (Inl e) = ''unicode decode error''"

fun readable :: "py_error + string \<Rightarrow> bool" where
  "readable (Inr line) = (line \<noteq> [])"
| "readable (Inl (UnicodeDecodeError m)) = True"
| "readable (Inl e) = False"

fun decode_errors :: "source \<Rightarrow> string list" where
  "decode_errors [] = []"
| "decode_errors (Inl (UnicodeDecodeError m) # rest) = m # decode_errors rest"
| "decode_errors (x # rest) = decode_errors rest"

text \<open>
  The relay thread on a pipe. A pipe delivers the reads \<open>arrivals\<close>; after them it is at
  its end when every process that held its write end has closed it (\<open>closes\<close>), and
  otherwise stays open and silent, so that \<^verbatim>\<open>readline()\<close> never returns. The event is set
  by the main thread: \<open>set_at n\<close> is the event that the loop finds clear the first \<open>n\<close>
  times it asks and set from then on. The result is \<open>None\<close> when the thread never ends.
\<close>

record feed =
  arrivals :: source
  closes :: bool

definition set_at :: "nat \<Rightarrow> nat \<Rightarrow> bool" where
  "set_at n k = (n \<le> k)"

function relay_thread ::
  "bool \<Rightarrow> (nat \<Rightarrow> bool) \<Rightarrow> relay \<Rightarrow> (py_error option \<times> relay) option" where
  "relay_thread closing stop r =
     (if \<not> stop 0 \<and> src r = [] \<and> \<not> closing then None
      else
        (case iteration (stop 0) r of
           Finished e r' \<Rightarrow> Some (e, r')
         | Running r' \<Rightarrow> relay_thread closing (\<lambda>k. stop (Suc k)) r'))"
  by pat_completeness auto
termination
  by (relation "measure (\<lambda>(closing, stop, r). length (src r))")
    (auto simp: iteration_def forward_def readline_def Let_def
       split: if_splits list.splits sum.splits py_error.splits)

text \<open>A relay to evaluate on: three reads, the second of which fails to decode, then the
  empty string.\<close>

definition example_relay :: relay where
  "example_relay =
     \<lparr>src = [Inr ''a'', Inl (UnicodeDecodeError ''bad byte''), Inr ''b'', Inr [], Inr ''c''],
      dst = \<lparr>has_flush = True, received = []\<rparr>,
      logged = []\<rparr>"

section \<open>The process supervisor\<close>

text \<open>
  The child process. Time is counted in ticks from the moment the child is started: the
  child ends at \<open>exit_time\<close> (\<open>None\<close>: never) with \<open>returncode\<close>, and its two pipes
  feed the relays.
\<close>

record child =
  exit_time :: "nat option"
  returncode :: int
  stdout_feed :: feed
  stderr_feed :: feed

text \<open>\<^verbatim>\<open>sub_p.wait(timeout=...)\<close>, called at time \<open>now\<close>, returns (and sets
  \<^verbatim>\<open>sub_p.returncode\<close>) or raises \<^verbatim>\<open>subprocess.TimeoutExpired\<close>; the second component
  is the time at which it does. Without a timeout it blocks until the child has ended, and
  never returns for a child that never ends. With a timeout it returns when the child
  ends within that time from \<open>now\<close>, and raises once the time has passed.\<close>

datatype wait_outcome = Returned int | TimeoutExpired

definition wait :: "child \<Rightarrow> nat option \<Rightarrow> nat \<Rightarrow> (wait_outcome \<times> nat) option" where
  "wait sub_p timeout now =
     (case timeout of
        None \<Rightarrow>
          (case exit_time sub_p of
             None \<Rightarrow> None
           | Some ended \<Rightarrow> Some (Returned (returncode sub_p), max now ended))
      | Some period \<Rightarrow>
          (case exit_time sub_p of
             None \<Rightarrow> Some (TimeoutExpired, now + period)
           | Some ended \<Rightarrow>
               (if ended \<le> now + period
                then Some (Returned (returncode sub_p), max now ended)
                else Some (TimeoutExpired, now + period))))"

text \<open>
  What the main thread of \<^verbatim>\<open>run_subprocess\<close> does, in order. A sink is
  \<^verbatim>\<open>sys.stdout\<close>, \<^verbatim>\<open>sys.stderr\<close> or an object the caller gave. The relays write to the
  same sinks from their own threads; \<open>RelayJoin\<close> is the return of \<^verbatim>\<open>t.join()\<close> and
  carries what the relay thread has delivered to its sink.
\<close>

datatype 'a target = SysStdout | SysStderr | Given 'a

datatype pipe = ChildStdout | ChildStderr

datatype 'a event =
    SetSysEncoding string
  | PopenEnter
  | RelayStart pipe "'a target"
  | SinkWrite "'a target" string
  | SysStdoutFlush
  | StopEventSet pipe
  | RelayJoin pipe "sink_event list"
  | PopenExit

text \<open>
  What \<^verbatim>\<open>run_subprocess\<close> uses and this repository does not define:
  \<^verbatim>\<open>CONF.encoding\<close>; \<^verbatim>\<open>subprocess.Popen\<close>, which raises when the command cannot be
  started and otherwise gives the child process; which sinks have a \<^verbatim>\<open>flush\<close>
  attribute; the time one heartbeat (the write and the flush) takes; and, of the
  interleaving of the threads, the number of times the relay thread of a pipe has found
  its stop event clear when the main thread sets it.
\<close>

record ('c, 'a) host =
  host_encoding :: string
  popen :: "'c \<Rightarrow> string option \<Rightarrow> bool \<Rightarrow> py_error + child"
  has_flush_attr :: "'a target \<Rightarrow> bool"
  beat_time :: nat
  relay_tests :: "pipe \<Rightarrow> nat"

text \<open>The loop \<^verbatim>\<open>while True\<close> of \<^verbatim>\<open>run_subprocess\<close>, entered at time \<open>now\<close> with the
  events so far. It returns the exit code \<^verbatim>\<open>wait\<close> has stored in \<^verbatim>\<open>sub_p.returncode\<close>,
  and never returns when every wait times out.\<close>

partial_function (option) wait_loop ::
  "child \<Rightarrow> nat option \<Rightarrow> 'a target \<Rightarrow> string \<Rightarrow> bool \<Rightarrow> nat \<Rightarrow> nat \<Rightarrow> 'a event list
     \<Rightarrow> (int \<times> 'a event list) option" where
  "wait_loop sub_p beat_freq stdout message flushes cost now events =
     (case wait sub_p beat_freq now of
        None \<Rightarrow> None
      | Some (Returned code, now') \<Rightarrow> Some (code, events)
      | Some (TimeoutExpired, now') \<Rightarrow>
          wait_loop sub_p beat_freq stdout message flushes cost (now' + cost)
            (events @ SinkWrite stdout message # (if flushes then [SysStdoutFlush] else [])))"

text \<open>
  Leaving a \<^verbatim>\<open>redirect_stream\<close> context: the stop event has been set, and \<^verbatim>\<open>t.join()\<close>
  returns once the relay thread of the pipe has ended (\<open>None\<close>: it never does). The thread
  is \<^verbatim>\<open>_redirect_stream\<close> from the pipe of the child to the sink.
\<close>

definition feed_of :: "child \<Rightarrow> pipe \<Rightarrow> feed" where
  "feed_of sub_p pi = (case pi of ChildStdout \<Rightarrow> stdout_feed sub_p | ChildStderr \<Rightarrow> stderr_feed sub_p)"

definition join_relay ::
  "('c, 'a) host \<Rightarrow> child \<Rightarrow> pipe \<Rightarrow> 'a target \<Rightarrow> sink_event list option" where
  "join_relay h sub_p pi sink =
     (case relay_thread (closes (feed_of sub_p pi)) (set_at (relay_tests h pi))
             \<lparr>src = arrivals (feed_of sub_p pi),
              dst = \<lparr>has_flush = has_flush_attr h sink, received = []\<rparr>,
              logged = []\<rparr> of
        None \<Rightarrow> None
      | Some (e, r) \<Rightarrow> Some (received (dst r)))"

text \<open>
  \<^verbatim>\<open>run_subprocess\<close>. An argument left out is \<open>None\<close>. The result is \<open>None\<close> when the
  call never returns, and otherwise what it returns or raises together with the events of
  the main thread. Leaving the two \<^verbatim>\<open>redirect_stream\<close> contexts stops and joins the
  relay of the error stream first, then the relay of the output stream.
\<close>

definition run_subprocess ::
  "('c, 'a) host \<Rightarrow> 'c \<Rightarrow> string option \<Rightarrow> 'a option \<Rightarrow> 'a option \<Rightarrow> bool \<Rightarrow> nat option
     \<Rightarrow> string option \<Rightarrow> ((py_error + int) \<times> 'a event list) option" where
  "run_subprocess h command cwd stdout stderr shell beat_freq message =
     (let events0 = [SetSysEncoding (host_encoding h)];
          out = (case stdout of None \<Rightarrow> SysStdout | Some s \<Rightarrow> Given s);
          err = (case stderr of None \<Rightarrow> SysStderr | Some s \<Rightarrow> Given s);
          msg = (case message of
                   None \<Rightarrow> ''subprocess is still running'' @ [CHR 0x0A]
                 | Some m \<Rightarrow> m)
      in
        (case popen h command cwd shell of
           Inl e \<Rightarrow> Some (Inl e, events0)
         | Inr sub_p \<Rightarrow>
             (case wait_loop sub_p beat_freq out msg (has_flush_attr h SysStdout)
                     (beat_time h) 0
                     (events0 @ [PopenEnter, RelayStart ChildStdout out,
                                 RelayStart ChildStderr err]) of
                None \<Rightarrow> None
              | Some (code, events) \<Rightarrow>
                  (case join_relay h sub_p ChildStderr err of
                     None \<Rightarrow> None
                   | Some err_delivered \<Rightarrow>
                       (case join_relay h sub_p ChildStdout out of
                          None \<Rightarrow> None
                        | Some out_delivered \<Rightarrow>
                            Some (Inr code,
                                  events @ [StopEventSet ChildStderr,
                                            RelayJoin ChildStderr err_delivered,
                                            StopEventSet ChildStdout,
                                            RelayJoin ChildStdout out_delivered,
                                            PopenExit]))))))"

text \<open>
  The events of one heartbeat, and a host to evaluate \<^verbatim>\<open>run_subprocess\<close> on. The command
  \<^verbatim>\<open>sleep\<close> ends after three ticks with code 3, having written one line, and its pipes
  close. The command \<^verbatim>\<open>daemon\<close> ends at once with code 7 and leaves a descendant that
  holds the output pipe open and writes nothing. Any other command cannot be started.
  Each relay thread has found its event clear once when the main thread sets it.
\<close>

definition beat :: "'a target \<Rightarrow> string \<Rightarrow> bool \<Rightarrow> 'a event list" where
  "beat out msg flushes = SinkWrite out msg # (if flushes then [SysStdoutFlush] else [])"

definition sleeping_child :: child where
  "sleeping_child =
     \<lparr>exit_time = Some 3, returncode = 3,
      stdout_feed = \<lparr>arrivals = [Inr (''done'' @ [CHR 0x0A])], closes = True\<rparr>,
      stderr_feed = \<lparr>arrivals = [], closes = True\<rparr>\<rparr>"

definition orphaning_child :: child where
  "orphaning_child =
     \<lparr>exit_time = Some 0, returncode = 7,
      stdout_feed = \<lparr>arrivals = [], closes = False\<rparr>,
      stderr_feed = \<lparr>arrivals = [], closes = True\<rparr>\<rparr>"

definition example_host :: "(string, string) host" where
  "example_host =
     \<lparr>host_encoding = ''latin-1'',
      popen = (\<lambda>command cwd shell.
                 if command = ''sleep'' then Inr sleeping_child
                 else if command = ''daemon'' then Inr orphaning_child
                 else Inl (FileNotFoundError command)),
      has_flush_attr = (\<lambda>sink. True),
      beat_time = 0,
      relay_tests = (\<lambda>pi. 1)\<rparr>"

section \<open>Properties of version strings\<close>

lemma split_dot_nodot:
  "CHR ''.'' \<notin> set p \<Longrightarrow> split_dot (p @ CHR ''.'' # s) = p # split_dot s"
  by (induction p) (auto split: list.splits)

lemma split_dot_single: "CHR ''.'' \<notin> set p \<Longrightarrow> split_dot p = [p]"
  by (induction p) (auto split: list.splits)

lemma split_dot_join:
  "ps \<noteq> [] \<Longrightarrow> \<forall>p\<in>set ps. CHR ''.'' \<notin> set p \<Longrightarrow> split_dot (join_dot ps) = ps"
  by (induction ps rule: join_dot.induct) (auto simp: split_dot_nodot split_dot_single)

lemma parse_digits_chars:
  "parse_digits d acc s = Some v \<Longrightarrow> c \<in> set s \<Longrightarrow> is_digit c \<or> c = CHR ''_''"
  by (induction d acc s rule: parse_digits.induct) (auto split: if_splits)

lemma set_dropWhile_space:
  "c \<in> set t \<Longrightarrow> \<not> is_space c \<Longrightarrow> c \<in> set (dropWhile is_space t)"
  by (induction t) auto

lemma set_strip: "c \<in> set s \<Longrightarrow> \<not> is_space c \<Longrightarrow> c \<in> set (strip s)"
  by (simp add: strip_def set_dropWhile_space)

text \<open>A string that \<^verbatim>\<open>int\<close> accepts holds no dot, so splitting a dotted version
  string gives its components back.\<close>

lemma py_int_nodot: "py_int s = Inr v \<Longrightarrow> CHR ''.'' \<notin> set s"
proof
  assume ok: "py_int s = Inr v" and dot: "CHR ''.'' \<in> set s"
  have ns: "\<not> is_space CHR ''.''" by (simp add: is_space_def)
  have nd: "\<not> is_digit CHR ''.''" by (simp add: is_digit_def)
  from set_strip[OF dot ns] have in_strip: "CHR ''.'' \<in> set (strip s)" .
  from ok in_strip show False
    using nd
    by (auto simp: py_int_def split: list.splits if_splits option.splits
          dest: parse_digits_chars)
qed

lemma int_each_all2:
  "list_all2 (\<lambda>s v. py_int s = Inr v) lits vs \<Longrightarrow> int_each lits = Inr vs"
  by (induction lits vs rule: list_all2_induct) auto

text \<open>
  Claim C10. Let a version string be made of \<open>n \<ge> 1\<close> components joined by dots, each
  of which \<^verbatim>\<open>int\<close> accepts (\<open>lits\<close>, with values \<open>vs\<close>). Then
  \<^verbatim>\<open>version_str_to_version\<close> appends one 0 to the values and returns the first three:
  it raises \<^verbatim>\<open>ValueError\<close> exactly when \<open>n = 1\<close>, maps \<open>a.b\<close> to \<open>(a, b, 0)\<close>, a
  string of three components to these three, and drops every component after the third.
\<close>

theorem version_str_to_version_components:
  assumes ne: "lits \<noteq> []"
    and lit: "list_all2 (\<lambda>s v. py_int s = Inr v) lits vs"
  shows "version_str_to_version (join_dot lits) =
           (if length lits = 1
            then Inl (ValueError (''incorrect format: '' @ join_dot lits))
            else Inr (take 3 (vs @ [0])))
       \<and> ((\<exists>e. version_str_to_version (join_dot lits) = Inl e) \<longleftrightarrow> length lits = 1)
       \<and> (length lits = 2 \<longrightarrow>
            version_str_to_version (join_dot lits) = Inr [vs ! 0, vs ! 1, 0])
       \<and> (3 \<le> length lits \<longrightarrow>
            version_str_to_version (join_dot lits) = Inr [vs ! 0, vs ! 1, vs ! 2])"
proof -
  have len: "length vs = length lits"
    using lit by (simp add: list_all2_lengthD)
  have nodot: "\<forall>p\<in>set lits. CHR ''.'' \<notin> set p"
  proof
    fix p assume "p \<in> set lits"
    then obtain v where "py_int p = Inr v"
      using lit by (auto simp: list_all2_conv_all_nth in_set_conv_nth)
    then show "CHR ''.'' \<notin> set p" by (rule py_int_nodot)
  qed
  have split: "split_dot (join_dot lits) = lits"
    using ne nodot by (rule split_dot_join)
  have each: "int_each (split_dot (join_dot lits)) = Inr vs"
    using lit by (simp add: split int_each_all2)
  have main: "version_str_to_version (join_dot lits) =
           (if length lits = 1
            then Inl (ValueError (''incorrect format: '' @ join_dot lits))
            else Inr (take 3 (vs @ [0])))"
  proof -
    have "length (vs @ [0]) < 3 \<longleftrightarrow> length lits = 1"
      using ne len by (cases lits) auto
    then show ?thesis
      unfolding version_str_to_version_def each by (simp add: Let_def)
  qed
  have raises: "(\<exists>e. version_str_to_version (join_dot lits) = Inl e) \<longleftrightarrow> length lits = 1"
    by (simp add: main)
  have two: "version_str_to_version (join_dot lits) = Inr [vs ! 0, vs ! 1, 0]"
    if "length lits = 2"
  proof -
    from that len obtain a b where "vs = [a, b]"
      by (cases vs; cases "tl vs"; cases "tl (tl vs)") auto
    with that show ?thesis by (simp add: main)
  qed
  have three: "version_str_to_version (join_dot lits) = Inr [vs ! 0, vs ! 1, vs ! 2]"
    if "3 \<le> length lits"
  proof -
    from that len obtain a b c rest where "vs = a # b # c # rest"
      by (cases vs; cases "tl vs"; cases "tl (tl vs)") auto
    with that show ?thesis by (simp add: main)
  qed
  from main raises two three show ?thesis by blast
qed

theorem version_str_to_version_components_witness:
  "version_str_to_version ''1.2.3.4'' = Inr [1, 2, 3]
   \<and> version_str_to_version ''8.9'' = Inr [8, 9, 0]
   \<and> version_str_to_version ''22.1.0'' = Inr [22, 1, 0]
   \<and> version_str_to_version ''9'' = Inl (ValueError ''incorrect format: 9'')"
proof -
  have four: "list_all2 (\<lambda>s v. py_int s = Inr v) [''1'', ''2'', ''3'', ''4''] [1, 2, 3, 4]"
    by code_simp
  have two: "list_all2 (\<lambda>s v. py_int s = Inr v) [''8'', ''9''] [8, 9]"
    by code_simp
  have three: "list_all2 (\<lambda>s v. py_int s = Inr v) [''22'', ''1'', ''0''] [22, 1, 0]"
    by code_simp
  have one: "list_all2 (\<lambda>s v. py_int s = Inr v) [''9''] [9]"
    by code_simp
  show ?thesis
    using version_str_to_version_components [OF _ four]
      version_str_to_version_components [OF _ two]
      version_str_to_version_components [OF _ three]
      version_str_to_version_components [OF _ one]
    by simp
qed

section \<open>Properties of the buffer resolver\<close>

lemma last_chars_suffix: "last_chars (length t) s = t \<longleftrightarrow> suffix t s"
  unfolding last_chars_def
proof
  assume "drop (length s - length t) s = t"
  then show "suffix t s" by (metis suffix_drop)
next
  assume "suffix t s"
  then obtain u where "s = u @ t" by (auto simp: suffix_def)
  then show "drop (length s - length t) s = t" by simp
qed

lemma extension_test:
  "last_chars (length ext + 1) s = CHR ''.'' # ext \<longleftrightarrow> suffix (CHR ''.'' # ext) s"
  using last_chars_suffix[of "CHR ''.'' # ext" s] by simp

lemma get_string_buffer_Str:
  "get_string_buffer e (Str s) ext =
     (if suffix (CHR ''.'' # ext) s
      then (if isfile e s
            then (case py_open e s (Some (conf_encoding e)) Strict of
                    Inl err \<Rightarrow> Inl err
                  | Inr buffer \<Rightarrow> Inr (buffer, Some s))
            else Inl (FileNotFoundError
                        (''No file at given path: '' @ CHR 0x27 # s @ [CHR 0x27, CHR ''.''])))
      else Inr (StringIO (new_string_io s), None))"
  using extension_test[of ext s] by (simp add: get_string_buffer_def)

text \<open>What \<^verbatim>\<open>open\<close> does on a file that exists: it never raises
  \<^verbatim>\<open>FileNotFoundError\<close>, and the handle it returns is for the path, the encoding and
  the error policy it was given.\<close>

lemma py_open_existing:
  "isfile e p \<Longrightarrow> py_open e p enc errs \<noteq> Inl (FileNotFoundError m)"
  by (auto simp: py_open_def isfile_def split: option.splits)

lemma py_open_handle:
  "py_open e p enc errs = Inr h \<Longrightarrow> h = TextIOWrapper p enc errs"
  by (auto simp: py_open_def split: option.splits if_splits)

lemma py_open_succeeds:
  "fs e p = Some f \<Longrightarrow> may_open f \<Longrightarrow> (\<forall>c. enc = Some c \<longrightarrow> known_codec e c) \<Longrightarrow>
     py_open e p enc errs = Inr (TextIOWrapper p enc errs)"
  by (auto simp: py_open_def split: option.splits)

lemma example_a_idf:
  "get_string_buffer example_env (Str ''a.idf'') ''idf''
     = Inr (TextIOWrapper ''a.idf'' (Some ''latin-1'') Strict, Some ''a.idf'')"
  by (simp add: get_string_buffer_def last_chars_def isfile_def py_open_def
        example_env_def example_files_def)

text \<open>
  Claim C5. Whenever \<^verbatim>\<open>get_string_buffer\<close> returns, the path it returns is not
  \<^verbatim>\<open>None\<close> exactly when the input was a string ending in a dot followed by the expected
  extension. A string that does not end so is wrapped as in-memory text with path
  \<^verbatim>\<open>None\<close> in every file system, also one that has a file of that name; an open text
  stream, bytes and an open byte stream give path \<^verbatim>\<open>None\<close>.
\<close>

theorem get_string_buffer_path_iff:
  "(get_string_buffer e v ext = Inr (buf, p) \<longrightarrow>
      (p \<noteq> None \<longleftrightarrow> (\<exists>s. v = Str s \<and> suffix (CHR ''.'' # ext) s)))
   \<and> (\<not> suffix (CHR ''.'' # ext) s \<longrightarrow>
        get_string_buffer e (Str s) ext = Inr (StringIO (new_string_io s), None))
   \<and> get_string_buffer e (TextIOBase t) ext = Inr (t, None)
   \<and> (get_string_buffer e (Bytes b) ext = Inr (buf, p) \<longrightarrow> p = None)
   \<and> (get_string_buffer e (BufferedIOBase bs) ext = Inr (buf, p) \<longrightarrow> p = None)"
proof -
  have 1: "p \<noteq> None \<longleftrightarrow> (\<exists>s. v = Str s \<and> suffix (CHR ''.'' # ext) s)"
    if "get_string_buffer e v ext = Inr (buf, p)"
  proof (cases v)
    case (Str s)
    with that show ?thesis
      by (auto simp: get_string_buffer_Str split: if_splits sum.splits)
  qed (use that in \<open>auto simp: get_string_buffer_def split: sum.splits\<close>)
  have 2: "get_string_buffer e (Str s) ext = Inr (StringIO (new_string_io s), None)"
    if "\<not> suffix (CHR ''.'' # ext) s"
    using that by (simp add: get_string_buffer_Str)
  have 3: "get_string_buffer e (TextIOBase t) ext = Inr (t, None)"
    by (simp add: get_string_buffer_def)
  have 4: "p = None" if "get_string_buffer e (Bytes b) ext = Inr (buf, p)"
    using that by (auto simp: get_string_buffer_def split: sum.splits)
  have 5: "p = None" if "get_string_buffer e (BufferedIOBase bs) ext = Inr (buf, p)"
    using that by (auto simp: get_string_buffer_def split: sum.splits)
  from 1 2 3 4 5 show ?thesis by blast
qed

theorem get_string_buffer_path_iff_witness:
  "isfile example_env ''a.idf''
   \<and> get_string_buffer example_env (Str ''a.idf'') ''epw''
       = Inr (StringIO (new_string_io ''a.idf''), None)
   \<and> get_string_buffer example_env (Str ''a.idf'') ''idf''
       = Inr (TextIOWrapper ''a.idf'' (Some ''latin-1'') Strict, Some ''a.idf'')
   \<and> (Some ''a.idf'' \<noteq> None \<longleftrightarrow>
        (\<exists>s. Str ''a.idf'' = Str s \<and> suffix (CHR ''.'' # ''idf'') s))
   \<and> get_string_buffer example_env (Bytes [0x68, 0x69]) ''idf''
       = Inr (StringIO (new_string_io ''hi''), None)
   \<and> get_string_buffer example_env (BufferedIOBase (BytesIO [0x68, 0x69])) ''idf''
       = Inr (StringIO (new_string_io ''hi''), None)"
proof -
  have n: "\<not> suffix (CHR ''.'' # ''epw'') ''a.idf''"
    by (simp add: suffix_def)
  note r = example_a_idf
  have hi: "latin1 [0x68, 0x69] = ''hi''"
    by code_simp
  have b: "get_string_buffer example_env (Bytes [0x68, 0x69]) ''idf''
       = Inr (StringIO (new_string_io ''hi''), None)"
    by (simp add: get_string_buffer_def example_env_def example_decode_def hi)
  have s: "get_string_buffer example_env (BufferedIOBase (BytesIO [0x68, 0x69])) ''idf''
       = Inr (StringIO (new_string_io ''hi''), None)"
    by (simp add: get_string_buffer_def read_bytes_def example_env_def example_decode_def hi)
  show ?thesis
    using n r b s
      get_string_buffer_path_iff [of example_env "Str ''a.idf''" "''idf''"
        "TextIOWrapper ''a.idf'' (Some ''latin-1'') Strict" "Some ''a.idf''"]
      get_string_buffer_path_iff [of example_env "Str ''a.idf''" "''epw''" _ _ "''a.idf''"]
      get_string_buffer_path_iff [of example_env _ "''idf''"
        "StringIO (new_string_io ''hi'')" None _ _ "[0x68, 0x69]" "BytesIO [0x68, 0x69]"]
    by (simp add: isfile_def example_env_def example_files_def)
qed

text \<open>
  Claim C6 says that for a string ending in the extension \<^verbatim>\<open>get_string_buffer\<close> either
  raises a not-found error or returns the opened file and the path. It does neither for
  \<^verbatim>\<open>locked.idf\<close> of the example environment, a file that exists and may not be opened:
  \<^verbatim>\<open>os.path.isfile\<close> is true and \<^verbatim>\<open>open\<close> raises \<^verbatim>\<open>PermissionError\<close>.
\<close>

theorem get_string_buffer_open_fails_counterexample:
  "suffix (CHR ''.'' # ''idf'') ''locked.idf''
   \<and> isfile example_env ''locked.idf''
   \<and> get_string_buffer example_env (Str ''locked.idf'') ''idf''
       = Inl (PermissionError ''locked.idf'')"
  by (simp add: suffix_def get_string_buffer_def last_chars_def isfile_def py_open_def
        example_env_def example_files_def)

text \<open>
  Claim C6, amended. For a string that ends in a dot followed by the expected extension,
  \<^verbatim>\<open>get_string_buffer\<close> raises \<^verbatim>\<open>FileNotFoundError\<close> exactly when no file is at that
  path. Otherwise it calls \<^verbatim>\<open>open\<close> on the path with the configured encoding: when
  \<^verbatim>\<open>open\<close> raises (the file may not be opened, or Python has no codec for the
  configured encoding) that error is raised, and when it succeeds (as it does on a file
  that may be opened, with a known encoding) the opened file is returned with the input
  string itself as the path.
\<close>

theorem get_string_buffer_not_found_iff:
  assumes "suffix (CHR ''.'' # ext) s"
  shows "((\<exists>m. get_string_buffer e (Str s) ext = Inl (FileNotFoundError m)) \<longleftrightarrow> \<not> isfile e s)
       \<and> (isfile e s \<longrightarrow>
            get_string_buffer e (Str s) ext
              = (case py_open e s (Some (conf_encoding e)) Strict of
                   Inl err \<Rightarrow> Inl err
                 | Inr buffer \<Rightarrow> Inr (buffer, Some s)))
       \<and> (get_string_buffer e (Str s) ext = Inr (buf, p) \<longrightarrow>
            isfile e s \<and> buf = TextIOWrapper s (Some (conf_encoding e)) Strict \<and> p = Some s)
       \<and> (fs e s = Some f \<and> may_open f \<and> known_codec e (conf_encoding e) \<longrightarrow>
            get_string_buffer e (Str s) ext
              = Inr (TextIOWrapper s (Some (conf_encoding e)) Strict, Some s))
       \<and> (fs e s = Some f \<and> \<not> may_open f \<longrightarrow>
            get_string_buffer e (Str s) ext = Inl (PermissionError s))
       \<and> (fs e s = Some f \<and> may_open f \<and> \<not> known_codec e (conf_encoding e) \<longrightarrow>
            get_string_buffer e (Str s) ext = Inl (LookupError (conf_encoding e)))"
proof -
  have 1: "(\<exists>m. get_string_buffer e (Str s) ext = Inl (FileNotFoundError m)) \<longleftrightarrow> \<not> isfile e s"
    using assms py_open_existing[of e s "Some (conf_encoding e)" Strict]
    by (auto simp: get_string_buffer_Str split: sum.splits)
  have 2: "get_string_buffer e (Str s) ext
              = (case py_open e s (Some (conf_encoding e)) Strict of
                   Inl err \<Rightarrow> Inl err
                 | Inr buffer \<Rightarrow> Inr (buffer, Some s))"
    if "isfile e s"
    using assms that by (simp add: get_string_buffer_Str)
  have 3: "isfile e s \<and> buf = TextIOWrapper s (Some (conf_encoding e)) Strict \<and> p = Some s"
    if "get_string_buffer e (Str s) ext = Inr (buf, p)"
    using assms that
    by (auto simp: get_string_buffer_Str split: if_splits sum.splits dest: py_open_handle)
  have 4: "get_string_buffer e (Str s) ext
              = Inr (TextIOWrapper s (Some (conf_encoding e)) Strict, Some s)"
    if "fs e s = Some f" "may_open f" "known_codec e (conf_encoding e)"
    using assms that by (simp add: get_string_buffer_Str isfile_def py_open_def)
  have 5: "get_string_buffer e (Str s) ext = Inl (PermissionError s)"
    if "fs e s = Some f" "\<not> may_open f"
    using assms that by (simp add: get_string_buffer_Str isfile_def py_open_def)
  have 6: "get_string_buffer e (Str s) ext = Inl (LookupError (conf_encoding e))"
    if "fs e s = Some f" "may_open f" "\<not> known_codec e (conf_encoding e)"
    using assms that by (simp add: get_string_buffer_Str isfile_def py_open_def)
  from 1 2 3 4 5 6 show ?thesis by blast
qed

theorem get_string_buffer_not_found_iff_witness:
  "(\<exists>m. get_string_buffer example_env (Str ''/no/such/file.idf'') ''idf''
           = Inl (FileNotFoundError m))
   \<and> get_string_buffer example_env (Str ''a.idf'') ''idf''
       = Inr (TextIOWrapper ''a.idf'' (Some ''latin-1'') Strict, Some ''a.idf'')
   \<and> get_string_buffer example_env (Str ''locked.idf'') ''idf''
       = Inl (PermissionError ''locked.idf'')"
proof -
  have a: "suffix (CHR ''.'' # ''idf'') ''/no/such/file.idf''"
    by (simp add: suffix_def)
  have b: "suffix (CHR ''.'' # ''idf'') ''a.idf''"
    by (simp add: suffix_def)
  have c: "suffix (CHR ''.'' # ''idf'') ''locked.idf''"
    by (simp add: suffix_def)
  have n: "\<not> isfile example_env ''/no/such/file.idf''"
    by (simp add: isfile_def example_env_def example_files_def)
  have fa: "fs example_env ''a.idf'' = Some \<lparr>may_open = True, file_content = [0x68, 0x69]\<rparr>
            \<and> may_open \<lparr>may_open = True, file_content = [0x68, 0x69]\<rparr>
            \<and> known_codec example_env (conf_encoding example_env)"
    by (simp add: example_env_def example_files_def)
  have fl: "fs example_env ''locked.idf''
              = Some \<lparr>may_open = False, file_content = [0x68, 0x69]\<rparr>
            \<and> \<not> may_open \<lparr>may_open = False, file_content = [0x68, 0x69]\<rparr>"
    by (simp add: example_env_def example_files_def)
  have enc: "conf_encoding example_env = ''latin-1''"
    by (simp add: example_env_def)
  have 1: "\<exists>m. get_string_buffer example_env (Str ''/no/such/file.idf'') ''idf''
           = Inl (FileNotFoundError m)"
    using get_string_buffer_not_found_iff [OF a, THEN conjunct1, of example_env] n
    by (rule iffD2)
  have 2: "get_string_buffer example_env (Str ''a.idf'') ''idf''
       = Inr (TextIOWrapper ''a.idf'' (Some (conf_encoding example_env)) Strict, Some ''a.idf'')"
    using get_string_buffer_not_found_iff [OF b, THEN conjunct2, THEN conjunct2,
        THEN conjunct2, THEN conjunct1, THEN mp, OF fa] .
  have 3: "get_string_buffer example_env (Str ''locked.idf'') ''idf''
       = Inl (PermissionError ''locked.idf'')"
    using get_string_buffer_not_found_iff [OF c, THEN conjunct2, THEN conjunct2,
        THEN conjunct2, THEN conjunct2, THEN conjunct1, THEN mp, OF fl] .
  from 1 2 3 show ?thesis
    unfolding enc by (intro conjI)
qed

text \<open>
  Claim C7. For bytes \<open>b\<close>, \<^verbatim>\<open>get_string_buffer\<close> decodes \<open>b\<close> with the configured
  encoding: when that fails the error is raised, and when it gives the text \<open>t\<close> the
  result is a fresh in-memory stream whose \<^verbatim>\<open>read()\<close> returns exactly \<open>t\<close>, with path
  \<^verbatim>\<open>None\<close>.
\<close>

theorem get_string_buffer_bytes_roundtrip:
  "get_string_buffer e (Bytes b) ext =
     (case decode e (conf_encoding e) b of
        Inl err \<Rightarrow> Inl err
      | Inr t \<Rightarrow> Inr (StringIO (new_string_io t), None))
   \<and> fst (read_string_io (new_string_io t)) = t
   \<and> (decode e (conf_encoding e) b = Inr t \<longrightarrow>
        (\<exists>buf. get_string_buffer e (Bytes b) ext = Inr (StringIO buf, None)
               \<and> fst (read_string_io buf) = t))"
  by (simp add: get_string_buffer_def read_string_io_def new_string_io_def)

theorem get_string_buffer_bytes_roundtrip_witness:
  "decode example_env (conf_encoding example_env) [0x68, 0x69] = Inr ''hi''
   \<and> (\<exists>buf. get_string_buffer example_env (Bytes [0x68, 0x69]) ''idf'' = Inr (StringIO buf, None)
            \<and> fst (read_string_io buf) = ''hi'')"
proof -
  have d: "decode example_env (conf_encoding example_env) [0x68, 0x69] = Inr ''hi''"
    by code_simp
  show ?thesis
    using d get_string_buffer_bytes_roundtrip [of example_env "[0x68, 0x69]" "''idf''" "''hi''"]
    by simp
qed

text \<open>The two revisions of \<^verbatim>\<open>to_buffer\<close> on a string, and on anything else.\<close>

lemma to_buffer_Str:
  "to_buffer e (Str p) =
     (case fs e p of
        None \<Rightarrow> Inl (FileNotFoundError (''no file found at given path: '' @ p))
      | Some f \<Rightarrow>
          (if \<not> may_open f then Inl (PermissionError p)
           else
             (case detect e (file_content f) of
                None \<Rightarrow>
                  Inr (Some p, TextIOBase (TextIOWrapper p None Ignore))
              | Some c \<Rightarrow>
                  (if known_codec e c
                   then Inr (Some p, TextIOBase (TextIOWrapper p (Some c) Ignore))
                   else Inl (LookupError c)))))"
  by (simp add: to_buffer_def isfile_def read_binary_def py_open_def Let_def
        split: option.splits)

lemma oplus_to_buffer_Str:
  "oplus_to_buffer e (Str p) =
     (case fs e p of
        None \<Rightarrow> Inl (FileNotFoundError (''no file found at given path: '' @ p))
      | Some f \<Rightarrow>
          (if \<not> may_open f then Inl (PermissionError p)
           else if known_codec e (conf_encoding e)
           then Inr (Some p, TextIOBase (TextIOWrapper p (Some (conf_encoding e)) Strict))
           else Inl (LookupError (conf_encoding e))))"
  by (simp add: oplus_to_buffer_def isfile_def py_open_def split: option.splits)

lemma to_buffer_other: "(\<forall>s. v \<noteq> Str s) \<Longrightarrow> to_buffer e v = Inr (None, v)"
  by (cases v) (simp_all add: to_buffer_def)

lemma oplus_to_buffer_other: "(\<forall>s. v \<noteq> Str s) \<Longrightarrow> oplus_to_buffer e v = Inr (None, v)"
  by (cases v) (simp_all add: oplus_to_buffer_def)

lemma example_u_idf:
  "get_string_buffer example_env (Str ''u.idf'') ''idf''
     = Inr (TextIOWrapper ''u.idf'' (Some ''latin-1'') Strict, Some ''u.idf'')"
  by (simp add: get_string_buffer_def last_chars_def isfile_def py_open_def
        example_env_def example_files_def)

lemma example_u_idf_detected:
  "to_buffer example_env (Str ''u.idf'')
     = Inr (Some ''u.idf'', TextIOBase (TextIOWrapper ''u.idf'' (Some ''UTF-8'') Ignore))"
  by (simp add: to_buffer_Str example_env_def example_files_def example_detect_def)

text \<open>
  Claim C8 says that the path branch of \<^verbatim>\<open>to_buffer\<close> opens a file as the path branch of
  \<^verbatim>\<open>get_string_buffer\<close> does, so that the streams read alike. In \<^verbatim>\<open>opyplus/util.py\<close>
  they do not. The file \<^verbatim>\<open>u.idf\<close> of the example environment holds \<^verbatim>\<open>h\<close> and an
  accented e in UTF-8: the stream of \<^verbatim>\<open>get_string_buffer\<close> (Latin-1, strict) reads three
  characters, the stream of \<^verbatim>\<open>to_buffer\<close> (the detected UTF-8, errors ignored) reads two.
  On \<^verbatim>\<open>v.idf\<close>, where the detector answers an encoding Python has no codec for,
  \<^verbatim>\<open>get_string_buffer\<close> returns a stream and \<^verbatim>\<open>to_buffer\<close> raises.
\<close>

theorem to_buffer_differs_counterexample:
  "get_string_buffer example_env (Str ''u.idf'') ''idf''
     = Inr (TextIOWrapper ''u.idf'' (Some ''latin-1'') Strict, Some ''u.idf'')
   \<and> to_buffer example_env (Str ''u.idf'')
     = Inr (Some ''u.idf'', TextIOBase (TextIOWrapper ''u.idf'' (Some ''UTF-8'') Ignore))
   \<and> read_text example_env (TextIOWrapper ''u.idf'' (Some ''latin-1'') Strict)
     = Inr [CHR ''h'', CHR 0xC3, CHR 0xA9]
   \<and> read_text example_env (TextIOWrapper ''u.idf'' (Some ''UTF-8'') Ignore)
     = Inr [CHR ''h'', CHR 0xE9]
   \<and> get_string_buffer example_env (Str ''v.idf'') ''idf''
     = Inr (TextIOWrapper ''v.idf'' (Some ''latin-1'') Strict, Some ''v.idf'')
   \<and> to_buffer example_env (Str ''v.idf'') = Inl (LookupError ''VISCII'')"
proof -
  have r1: "read_text example_env (TextIOWrapper ''u.idf'' (Some ''latin-1'') Strict)
     = Inr [CHR ''h'', CHR 0xC3, CHR 0xA9]"
    by code_simp
  have r2: "read_text example_env (TextIOWrapper ''u.idf'' (Some ''UTF-8'') Ignore)
     = Inr [CHR ''h'', CHR 0xE9]"
    by code_simp
  have v1: "get_string_buffer example_env (Str ''v.idf'') ''idf''
     = Inr (TextIOWrapper ''v.idf'' (Some ''latin-1'') Strict, Some ''v.idf'')"
    by (simp add: get_string_buffer_def last_chars_def isfile_def py_open_def
          example_env_def example_files_def)
  have v2: "to_buffer example_env (Str ''v.idf'') = Inl (LookupError ''VISCII'')"
    by (simp add: to_buffer_Str example_env_def example_files_def example_detect_def)
  from example_u_idf example_u_idf_detected r1 r2 v1 v2 show ?thesis by simp
qed

text \<open>
  Claim C8, amended. Whenever \<^verbatim>\<open>to_buffer\<close> (either revision) returns, the path it
  returns is not \<^verbatim>\<open>None\<close> exactly when the input was a string; for a string the result
  is the path and an open text stream, for any other input, an open text or byte stream
  among them, it is the input itself. On a file that exists and a path ending in the
  extension, the path branch of \<^verbatim>\<open>oplus/util.py\<close> does what the path branch of
  \<^verbatim>\<open>get_string_buffer\<close> does: the same handle (configured encoding, strict errors) or
  the same error. The path branch of \<^verbatim>\<open>opyplus/util.py\<close> instead opens the file with
  the encoding detected from its bytes and \<^verbatim>\<open>errors="ignore"\<close>.
\<close>

theorem to_buffer_forms:
  "(to_buffer e v = Inr (q, b) \<longrightarrow>
      (q \<noteq> None \<longleftrightarrow> (\<exists>s. v = Str s))
      \<and> (\<forall>s. v = Str s \<longrightarrow> q = Some s \<and> (\<exists>h. b = TextIOBase h))
      \<and> ((\<forall>s. v \<noteq> Str s) \<longrightarrow> b = v))
   \<and> (oplus_to_buffer e v = Inr (q, b) \<longrightarrow>
      (q \<noteq> None \<longleftrightarrow> (\<exists>s. v = Str s))
      \<and> (\<forall>s. v = Str s \<longrightarrow> q = Some s \<and> (\<exists>h. b = TextIOBase h))
      \<and> ((\<forall>s. v \<noteq> Str s) \<longrightarrow> b = v))
   \<and> to_buffer e (TextIOBase t) = Inr (None, TextIOBase t)
   \<and> oplus_to_buffer e (TextIOBase t) = Inr (None, TextIOBase t)
   \<and> to_buffer e (BufferedIOBase bs) = Inr (None, BufferedIOBase bs)
   \<and> oplus_to_buffer e (BufferedIOBase bs) = Inr (None, BufferedIOBase bs)
   \<and> (isfile e p \<and> suffix (CHR ''.'' # ext) p \<longrightarrow>
        oplus_to_buffer e (Str p)
          = (case get_string_buffer e (Str p) ext of
               Inl err \<Rightarrow> Inl err
             | Inr (h, path) \<Rightarrow> Inr (path, TextIOBase h)))
   \<and> (get_string_buffer e (Str p) ext = Inr (h, Some p) \<longrightarrow>
        h = TextIOWrapper p (Some (conf_encoding e)) Strict)
   \<and> (to_buffer e (Str p) = Inr (q, b) \<longrightarrow>
        (\<exists>f. fs e p = Some f
             \<and> b = TextIOBase (TextIOWrapper p (detect e (file_content f)) Ignore)))"
proof -
  have 1: "(q \<noteq> None \<longleftrightarrow> (\<exists>s. v = Str s))
      \<and> (\<forall>s. v = Str s \<longrightarrow> q = Some s \<and> (\<exists>h. b = TextIOBase h))
      \<and> ((\<forall>s. v \<noteq> Str s) \<longrightarrow> b = v)"
    if "to_buffer e v = Inr (q, b)"
  proof (cases "\<exists>s. v = Str s")
    case True
    with that show ?thesis
      by (auto simp: to_buffer_Str split: option.splits if_splits)
  next
    case False
    with that show ?thesis by (simp add: to_buffer_other)
  qed
  have 2: "(q \<noteq> None \<longleftrightarrow> (\<exists>s. v = Str s))
      \<and> (\<forall>s. v = Str s \<longrightarrow> q = Some s \<and> (\<exists>h. b = TextIOBase h))
      \<and> ((\<forall>s. v \<noteq> Str s) \<longrightarrow> b = v)"
    if "oplus_to_buffer e v = Inr (q, b)"
  proof (cases "\<exists>s. v = Str s")
    case True
    with that show ?thesis
      by (auto simp: oplus_to_buffer_Str split: option.splits if_splits)
  next
    case False
    with that show ?thesis by (simp add: oplus_to_buffer_other)
  qed
  have 3: "oplus_to_buffer e (Str p)
          = (case get_string_buffer e (Str p) ext of
               Inl err \<Rightarrow> Inl err
             | Inr (h, path) \<Rightarrow> Inr (path, TextIOBase h))"
    if "isfile e p" "suffix (CHR ''.'' # ext) p"
    using that
    by (simp add: get_string_buffer_Str oplus_to_buffer_def split: sum.splits)
  have 4: "h = TextIOWrapper p (Some (conf_encoding e)) Strict"
    if "get_string_buffer e (Str p) ext = Inr (h, Some p)"
    using that
    by (auto simp: get_string_buffer_Str new_string_io_def
          split: if_splits sum.splits dest: py_open_handle)
  have 5: "\<exists>f. fs e p = Some f
             \<and> b = TextIOBase (TextIOWrapper p (detect e (file_content f)) Ignore)"
    if "to_buffer e (Str p) = Inr (q, b)"
    using that by (auto simp: to_buffer_Str split: option.splits if_splits)
  have 6: "to_buffer e (TextIOBase t) = Inr (None, TextIOBase t)"
    "oplus_to_buffer e (TextIOBase t) = Inr (None, TextIOBase t)"
    "to_buffer e (BufferedIOBase bs) = Inr (None, BufferedIOBase bs)"
    "oplus_to_buffer e (BufferedIOBase bs) = Inr (None, BufferedIOBase bs)"
    by (simp_all add: to_buffer_other oplus_to_buffer_other)
  show ?thesis
    using 1 2 3 4 5 6 by (intro conjI impI) blast+
qed

theorem to_buffer_forms_witness:
  "oplus_to_buffer example_env (Str ''u.idf'')
       = Inr (Some ''u.idf'', TextIOBase (TextIOWrapper ''u.idf'' (Some ''latin-1'') Strict))
   \<and> (\<exists>f. fs example_env ''u.idf'' = Some f
          \<and> TextIOBase (TextIOWrapper ''u.idf'' (Some ''UTF-8'') Ignore)
              = TextIOBase (TextIOWrapper ''u.idf'' (detect example_env (file_content f)) Ignore))
   \<and> to_buffer example_env (TextIOBase (StringIO (new_string_io ''hi'')))
       = Inr (None, TextIOBase (StringIO (new_string_io ''hi'')))
   \<and> (Some ''u.idf'' \<noteq> None \<longleftrightarrow> (\<exists>s. Str ''u.idf'' = Str s))"
proof -
  have i: "isfile example_env ''u.idf'' \<and> suffix (CHR ''.'' # ''idf'') ''u.idf''"
    by (simp add: isfile_def example_env_def example_files_def suffix_def)
  note g = example_u_idf
  note t = example_u_idf_detected
  note T = to_buffer_forms [of example_env "Str ''u.idf''" "Some ''u.idf''"
        "TextIOBase (TextIOWrapper ''u.idf'' (Some ''UTF-8'') Ignore)"
        "StringIO (new_string_io ''hi'')" "BytesIO []" "''u.idf''" "''idf''"
        "TextIOWrapper ''u.idf'' (Some ''latin-1'') Strict"]
  have 1: "oplus_to_buffer example_env (Str ''u.idf'')
       = Inr (Some ''u.idf'', TextIOBase (TextIOWrapper ''u.idf'' (Some ''latin-1'') Strict))"
    using T [THEN conjunct2, THEN conjunct2, THEN conjunct2, THEN conjunct2, THEN conjunct2,
        THEN conjunct2, THEN conjunct1, THEN mp, OF i]
    by (simp add: g)
  have 2: "\<exists>f. fs example_env ''u.idf'' = Some f
          \<and> TextIOBase (TextIOWrapper ''u.idf'' (Some ''UTF-8'') Ignore)
              = TextIOBase (TextIOWrapper ''u.idf'' (detect example_env (file_content f)) Ignore)"
    using T [THEN conjunct2, THEN conjunct2, THEN conjunct2, THEN conjunct2, THEN conjunct2,
        THEN conjunct2, THEN conjunct2, THEN conjunct2, THEN mp, OF t] .
  have 3: "to_buffer example_env (TextIOBase (StringIO (new_string_io ''hi'')))
       = Inr (None, TextIOBase (StringIO (new_string_io ''hi'')))"
    using T [THEN conjunct2, THEN conjunct2, THEN conjunct1] .
  have 4: "Some ''u.idf'' \<noteq> None \<longleftrightarrow> (\<exists>s. Str ''u.idf'' = Str s)"
    using T [THEN conjunct1, THEN mp, OF t, THEN conjunct1] .
  from 1 2 3 4 show ?thesis by (intro conjI)
qed

text \<open>
  Claim C9 says that \<^verbatim>\<open>to_buffer\<close> raises only for a string that names no file. It also
  raises for files that exist: the revision of \<^verbatim>\<open>opyplus/util.py\<close> on \<^verbatim>\<open>v.idf\<close>,
  where the detector answers an encoding Python has no codec for, and both revisions on
  \<^verbatim>\<open>locked.idf\<close>, which may not be opened.
\<close>

theorem to_buffer_raises_on_existing_counterexample:
  "isfile example_env ''v.idf''
   \<and> to_buffer example_env (Str ''v.idf'') = Inl (LookupError ''VISCII'')
   \<and> isfile example_env ''locked.idf''
   \<and> to_buffer example_env (Str ''locked.idf'') = Inl (PermissionError ''locked.idf'')
   \<and> oplus_to_buffer example_env (Str ''locked.idf'') = Inl (PermissionError ''locked.idf'')"
  by (simp add: to_buffer_Str oplus_to_buffer_Str isfile_def
        example_env_def example_files_def example_detect_def)

text \<open>
  Claim C9, amended. \<^verbatim>\<open>to_buffer\<close> (either revision) raises only when its input is a
  string: \<^verbatim>\<open>FileNotFoundError\<close> exactly when no file exists at it, and, for a file that
  exists, \<^verbatim>\<open>PermissionError\<close> when the file may not be opened and \<^verbatim>\<open>LookupError\<close> when
  Python has no codec for the encoding the file is opened with (the detected one in
  \<^verbatim>\<open>opyplus/util.py\<close>, the configured one in \<^verbatim>\<open>oplus/util.py\<close>); otherwise it returns.
  Every value that is not a string, \<^verbatim>\<open>None\<close> and integers included, comes back unchanged
  as \<^verbatim>\<open>(None, v)\<close>. \<^verbatim>\<open>get_string_buffer\<close> raises \<^verbatim>\<open>ValueError\<close> on the values it
  cannot classify.
\<close>

theorem to_buffer_no_type_validation:
  "((\<exists>m. to_buffer e v = Inl (FileNotFoundError m)) \<longleftrightarrow> (\<exists>s. v = Str s \<and> \<not> isfile e s))
   \<and> ((\<exists>m. oplus_to_buffer e v = Inl (FileNotFoundError m))
        \<longleftrightarrow> (\<exists>s. v = Str s \<and> \<not> isfile e s))
   \<and> ((\<exists>err. to_buffer e v = Inl err) \<longrightarrow> (\<exists>s. v = Str s))
   \<and> ((\<exists>err. oplus_to_buffer e v = Inl err) \<longrightarrow> (\<exists>s. v = Str s))
   \<and> (fs e s = Some f \<and> \<not> may_open f \<longrightarrow>
        to_buffer e (Str s) = Inl (PermissionError s)
        \<and> oplus_to_buffer e (Str s) = Inl (PermissionError s))
   \<and> (fs e s = Some f \<and> may_open f \<and> detect e (file_content f) = Some c
        \<and> \<not> known_codec e c \<longrightarrow>
        to_buffer e (Str s) = Inl (LookupError c))
   \<and> (fs e s = Some f \<and> may_open f
        \<and> (\<forall>c. detect e (file_content f) = Some c \<longrightarrow> known_codec e c) \<longrightarrow>
        to_buffer e (Str s)
          = Inr (Some s, TextIOBase (TextIOWrapper s (detect e (file_content f)) Ignore)))
   \<and> (fs e s = Some f \<and> may_open f \<and> \<not> known_codec e (conf_encoding e) \<longrightarrow>
        oplus_to_buffer e (Str s) = Inl (LookupError (conf_encoding e)))
   \<and> (fs e s = Some f \<and> may_open f \<and> known_codec e (conf_encoding e) \<longrightarrow>
        oplus_to_buffer e (Str s)
          = Inr (Some s, TextIOBase (TextIOWrapper s (Some (conf_encoding e)) Strict)))
   \<and> ((\<forall>s. v \<noteq> Str s) \<longrightarrow> to_buffer e v = Inr (None, v) \<and> oplus_to_buffer e v = Inr (None, v))
   \<and> to_buffer e NoneVal = Inr (None, NoneVal)
   \<and> to_buffer e (IntVal i) = Inr (None, IntVal i)
   \<and> get_string_buffer e NoneVal ext
       = Inl (ValueError ''path_or_content type could not be identified'')
   \<and> get_string_buffer e (IntVal i) ext
       = Inl (ValueError ''path_or_content type could not be identified'')
   \<and> get_string_buffer e (ObjectVal n) ext
       = Inl (ValueError ''path_or_content type could not be identified'')"
proof -
  have 1: "(\<exists>m. to_buffer e v = Inl (FileNotFoundError m)) \<longleftrightarrow> (\<exists>s. v = Str s \<and> \<not> isfile e s)"
    by (cases v) (auto simp: to_buffer_Str to_buffer_other isfile_def split: option.splits)
  have 2: "(\<exists>m. oplus_to_buffer e v = Inl (FileNotFoundError m))
        \<longleftrightarrow> (\<exists>s. v = Str s \<and> \<not> isfile e s)"
    by (cases v)
      (auto simp: oplus_to_buffer_Str oplus_to_buffer_other isfile_def split: option.splits)
  have 3: "(\<exists>err. to_buffer e v = Inl err) \<longrightarrow> (\<exists>s. v = Str s)"
    by (cases "\<forall>s. v \<noteq> Str s") (simp_all add: to_buffer_other)
  have 4: "(\<exists>err. oplus_to_buffer e v = Inl err) \<longrightarrow> (\<exists>s. v = Str s)"
    by (cases "\<forall>s. v \<noteq> Str s") (simp_all add: oplus_to_buffer_other)
  have 5: "fs e s = Some f \<and> \<not> may_open f \<longrightarrow>
        to_buffer e (Str s) = Inl (PermissionError s)
        \<and> oplus_to_buffer e (Str s) = Inl (PermissionError s)"
    by (simp add: to_buffer_Str oplus_to_buffer_Str)
  have 6: "fs e s = Some f \<and> may_open f \<and> detect e (file_content f) = Some c
        \<and> \<not> known_codec e c \<longrightarrow>
        to_buffer e (Str s) = Inl (LookupError c)"
    by (simp add: to_buffer_Str)
  have 7: "fs e s = Some f \<and> may_open f
        \<and> (\<forall>c. detect e (file_content f) = Some c \<longrightarrow> known_codec e c) \<longrightarrow>
        to_buffer e (Str s)
          = Inr (Some s, TextIOBase (TextIOWrapper s (detect e (file_content f)) Ignore))"
    by (auto simp: to_buffer_Str split: option.splits)
  have 8: "fs e s = Some f \<and> may_open f \<and> \<not> known_codec e (conf_encoding e) \<longrightarrow>
        oplus_to_buffer e (Str s) = Inl (LookupError (conf_encoding e))"
    by (simp add: oplus_to_buffer_Str)
  have 9: "fs e s = Some f \<and> may_open f \<and> known_codec e (conf_encoding e) \<longrightarrow>
        oplus_to_buffer e (Str s)
          = Inr (Some s, TextIOBase (TextIOWrapper s (Some (conf_encoding e)) Strict))"
    by (simp add: oplus_to_buffer_Str)
  have 10: "(\<forall>s. v \<noteq> Str s) \<longrightarrow>
        to_buffer e v = Inr (None, v) \<and> oplus_to_buffer e v = Inr (None, v)"
    by (simp add: to_buffer_other oplus_to_buffer_other)
  have 11: "to_buffer e NoneVal = Inr (None, NoneVal)"
    "to_buffer e (IntVal i) = Inr (None, IntVal i)"
    by (simp_all add: to_buffer_other)
  have 12: "get_string_buffer e NoneVal ext
       = Inl (ValueError ''path_or_content type could not be identified'')"
    "get_string_buffer e (IntVal i) ext
       = Inl (ValueError ''path_or_content type could not be identified'')"
    "get_string_buffer e (ObjectVal n) ext
       = Inl (ValueError ''path_or_content type could not be identified'')"
    by (simp_all add: get_string_buffer_def)
  show ?thesis
    by (intro conjI) (fact 1 2 3 4 5 6 7 8 9 10 11 12)+
qed

theorem to_buffer_no_type_validation_witness:
  "to_buffer example_env (IntVal 3) = Inr (None, IntVal 3)
   \<and> oplus_to_buffer example_env NoneVal = Inr (None, NoneVal)
   \<and> (\<exists>m. to_buffer example_env (Str ''b.idf'') = Inl (FileNotFoundError m))
   \<and> to_buffer example_env (Str ''locked.idf'') = Inl (PermissionError ''locked.idf'')
   \<and> to_buffer example_env (Str ''v.idf'') = Inl (LookupError ''VISCII'')
   \<and> to_buffer example_env (Str ''a.idf'')
       = Inr (Some ''a.idf'', TextIOBase (TextIOWrapper ''a.idf'' (Some ''ASCII'') Ignore))
   \<and> oplus_to_buffer example_env (Str ''a.idf'')
       = Inr (Some ''a.idf'', TextIOBase (TextIOWrapper ''a.idf'' (Some ''latin-1'') Strict))
   \<and> get_string_buffer example_env (IntVal 3) ''idf''
       = Inl (ValueError ''path_or_content type could not be identified'')"
proof -
  note T = to_buffer_no_type_validation
  have a: "\<forall>s. IntVal 3 \<noteq> Str s" by simp
  have b: "\<forall>s. NoneVal \<noteq> Str s" by simp
  have c: "\<exists>s. Str ''b.idf'' = Str s \<and> \<not> isfile example_env s"
    by (simp add: isfile_def example_env_def example_files_def)
  have fl: "fs example_env ''locked.idf''
              = Some \<lparr>may_open = False, file_content = [0x68, 0x69]\<rparr>
            \<and> \<not> may_open \<lparr>may_open = False, file_content = [0x68, 0x69]\<rparr>"
    by (simp add: example_env_def example_files_def)
  have fv: "fs example_env ''v.idf''
              = Some \<lparr>may_open = True, file_content = [0x74, 0xD5, 0x6E]\<rparr>
            \<and> may_open \<lparr>may_open = True, file_content = [0x74, 0xD5, 0x6E]\<rparr>
            \<and> detect example_env (file_content \<lparr>may_open = True, file_content = [0x74, 0xD5, 0x6E]\<rparr>)
                = Some ''VISCII''
            \<and> \<not> known_codec example_env ''VISCII''"
    by (simp add: example_env_def example_files_def example_detect_def)
  have da: "detect example_env (file_content \<lparr>may_open = True, file_content = [0x68, 0x69]\<rparr>)
              = Some ''ASCII''"
    by (simp add: example_env_def example_detect_def)
  have fa: "fs example_env ''a.idf'' = Some \<lparr>may_open = True, file_content = [0x68, 0x69]\<rparr>
            \<and> may_open \<lparr>may_open = True, file_content = [0x68, 0x69]\<rparr>
            \<and> (\<forall>c. detect example_env
                      (file_content \<lparr>may_open = True, file_content = [0x68, 0x69]\<rparr>) = Some c
                    \<longrightarrow> known_codec example_env c)"
    by (simp add: example_env_def example_files_def example_detect_def)
  have fo: "fs example_env ''a.idf'' = Some \<lparr>may_open = True, file_content = [0x68, 0x69]\<rparr>
            \<and> may_open \<lparr>may_open = True, file_content = [0x68, 0x69]\<rparr>
            \<and> known_codec example_env (conf_encoding example_env)"
    by (simp add: example_env_def example_files_def)
  have enc: "conf_encoding example_env = ''latin-1''"
    by (simp add: example_env_def)
  have 1: "to_buffer example_env (IntVal 3) = Inr (None, IntVal 3)"
    using T [of example_env "IntVal 3", THEN conjunct2, THEN conjunct2, THEN conjunct2,
        THEN conjunct2, THEN conjunct2, THEN conjunct2, THEN conjunct2, THEN conjunct2,
        THEN conjunct2, THEN conjunct1, THEN mp, OF a, THEN conjunct1] .
  have 2: "oplus_to_buffer example_env NoneVal = Inr (None, NoneVal)"
    using T [of example_env NoneVal, THEN conjunct2, THEN conjunct2, THEN conjunct2,
        THEN conjunct2, THEN conjunct2, THEN conjunct2, THEN conjunct2, THEN conjunct2,
        THEN conjunct2, THEN conjunct1, THEN mp, OF b, THEN conjunct2] .
  have 3: "\<exists>m. to_buffer example_env (Str ''b.idf'') = Inl (FileNotFoundError m)"
    using T [of example_env "Str ''b.idf''", THEN conjunct1] c by (rule iffD2)
  have 4: "to_buffer example_env (Str ''locked.idf'') = Inl (PermissionError ''locked.idf'')"
    using T [THEN conjunct2, THEN conjunct2, THEN conjunct2, THEN conjunct2, THEN conjunct1,
        THEN mp, OF fl, THEN conjunct1] .
  have 5: "to_buffer example_env (Str ''v.idf'') = Inl (LookupError ''VISCII'')"
    using T [THEN conjunct2, THEN conjunct2, THEN conjunct2, THEN conjunct2, THEN conjunct2,
        THEN conjunct1, THEN mp, OF fv] .
  have 6: "to_buffer example_env (Str ''a.idf'')
       = Inr (Some ''a.idf'', TextIOBase (TextIOWrapper ''a.idf'' (Some ''ASCII'') Ignore))"
    using T [THEN conjunct2, THEN conjunct2, THEN conjunct2, THEN conjunct2, THEN conjunct2,
        THEN conjunct2, THEN conjunct1, THEN mp, OF fa]
    unfolding da .
  have 7: "oplus_to_buffer example_env (Str ''a.idf'')
       = Inr (Some ''a.idf'', TextIOBase (TextIOWrapper ''a.idf'' (Some ''latin-1'') Strict))"
    using T [THEN conjunct2, THEN conjunct2, THEN conjunct2, THEN conjunct2, THEN conjunct2,
        THEN conjunct2, THEN conjunct2, THEN conjunct2, THEN conjunct1, THEN mp, OF fo]
    unfolding enc .
  have 8: "get_string_buffer example_env (IntVal 3) ''idf''
       = Inl (ValueError ''path_or_content type could not be identified'')"
    using T [of example_env _ _ _ _ 3 "''idf''", THEN conjunct2, THEN conjunct2, THEN conjunct2,
        THEN conjunct2, THEN conjunct2, THEN conjunct2, THEN conjunct2, THEN conjunct2,
        THEN conjunct2, THEN conjunct2, THEN conjunct2, THEN conjunct2, THEN conjunct2,
        THEN conjunct1] .
  from 1 2 3 4 5 6 7 8 show ?thesis by (intro conjI)
qed

section \<open>Properties of the stream relay\<close>

declare redirect_stream_worker.simps [simp del]

text \<open>One pass over a read that can be forwarded, and the pass that meets the end of the
  stream.\<close>

lemma iteration_readable:
  assumes "src r = x # xs" and "readable x"
  shows "iteration False r =
           Running (r\<lparr>src := xs,
                      dst := (dst r)\<lparr>received := received (dst r)
                                @ deliveries (has_flush (dst r)) [forwarded x]\<rparr>,
                      logged := logged r @ decode_errors [x]\<rparr>)"
proof (cases x)
  case (Inr line)
  with assms show ?thesis
    by (simp add: iteration_def readline_def forward_def sink_write_def sink_flush_def
          deliveries_def Let_def)
next
  case (Inl e)
  with assms obtain m where "e = UnicodeDecodeError m" by (cases e) auto
  with Inl assms show ?thesis
    by (simp add: iteration_def readline_def forward_def sink_write_def sink_flush_def
          deliveries_def Let_def)
qed

lemma iteration_end:
  assumes "src r = [] \<or> (\<exists>post. src r = Inr [] # post)"
  shows "iteration False r = Finished None (r\<lparr>src := tl (src r)\<rparr>)"
  using assms by (auto simp: iteration_def readline_def forward_def)

lemma decode_errors_Cons: "decode_errors (x # xs) = decode_errors [x] @ decode_errors xs"
proof (cases x)
  case (Inl e)
  then show ?thesis by (cases e) auto
qed auto

text \<open>
  As long as the event is not set, the loop works through the reads that can be
  forwarded: after the reads \<open>pre\<close> it stands at the loop test again, with \<open>pre\<close>
  delivered and the rest of the source unread.
\<close>

lemma worker_prefix:
  assumes "src r = pre @ rest"
    and "\<forall>x\<in>set pre. readable x"
    and "\<forall>k<length pre. \<not> stop k"
  shows "redirect_stream_worker stop r =
           redirect_stream_worker (\<lambda>k. stop (length pre + k))
             (r\<lparr>src := rest,
                dst := (dst r)\<lparr>received := received (dst r)
                          @ deliveries (has_flush (dst r)) (map forwarded pre)\<rparr>,
                logged := logged r @ decode_errors pre\<rparr>)"
  using assms
proof (induction pre arbitrary: r stop)
  case Nil
  then have "r\<lparr>src := rest,
                dst := (dst r)\<lparr>received := received (dst r)
                          @ deliveries (has_flush (dst r)) (map forwarded [])\<rparr>,
                logged := logged r @ decode_errors []\<rparr> = r"
    by (simp add: deliveries_def)
  then show ?case by simp
next
  case (Cons x pre)
  let ?r1 = "r\<lparr>src := pre @ rest,
                dst := (dst r)\<lparr>received := received (dst r)
                          @ deliveries (has_flush (dst r)) [forwarded x]\<rparr>,
                logged := logged r @ decode_errors [x]\<rparr>"
  from Cons.prems have pass: "iteration (stop 0) r = Running ?r1"
    using iteration_readable[of r x "pre @ rest"] by auto
  have first: "redirect_stream_worker stop r = redirect_stream_worker (\<lambda>k. stop (Suc k)) ?r1"
    by (subst redirect_stream_worker.simps) (simp only: pass task.case)
  have others: "redirect_stream_worker (\<lambda>k. stop (Suc k)) ?r1 =
           redirect_stream_worker (\<lambda>k. stop (Suc (length pre + k)))
             (?r1\<lparr>src := rest,
                  dst := (dst ?r1)\<lparr>received := received (dst ?r1)
                            @ deliveries (has_flush (dst ?r1)) (map forwarded pre)\<rparr>,
                  logged := logged ?r1 @ decode_errors pre\<rparr>)"
    using Cons.prems by (intro Cons.IH) auto
  have same: "?r1\<lparr>src := rest,
                  dst := (dst ?r1)\<lparr>received := received (dst ?r1)
                            @ deliveries (has_flush (dst ?r1)) (map forwarded pre)\<rparr>,
                  logged := logged ?r1 @ decode_errors pre\<rparr>
              = r\<lparr>src := rest,
                  dst := (dst r)\<lparr>received := received (dst r)
                            @ deliveries (has_flush (dst r)) (map forwarded (x # pre))\<rparr>,
                  logged := logged r @ decode_errors (x # pre)\<rparr>"
    by (simp add: decode_errors_Cons[of x pre] deliveries_def)
  show ?case
    unfolding first others same by simp
qed

text \<open>
  Claim C2 says that the destination receives every line the source produces before the
  end of the stream. The example relay has three reads before the empty string; when the
  stop event is set after the first loop test, only the first of them is delivered and the
  others stay unread.
\<close>

theorem relay_cancelled_counterexample:
  "src example_relay
     = [Inr ''a'', Inl (UnicodeDecodeError ''bad byte''), Inr ''b''] @ [Inr [], Inr ''c'']
   \<and> received (dst (snd (redirect_stream_worker (set_at 1) example_relay)))
       = [Write ''a'', Flush]
   \<and> src (snd (redirect_stream_worker (set_at 1) example_relay))
       = [Inl (UnicodeDecodeError ''bad byte''), Inr ''b'', Inr [], Inr ''c'']"
  by (simp add: redirect_stream_worker.simps example_relay_def set_at_def iteration_def
        readline_def forward_def sink_write_def sink_flush_def)

text \<open>
  Claim C2, amended. Let the source produce the reads \<open>lines\<close> (each a non-empty line, or
  a \<^verbatim>\<open>UnicodeDecodeError\<close>) and then reach its end, or return the empty string, and let
  the stop event be clear at every loop test up to the one before that last read. Then
  \<^verbatim>\<open>_redirect_stream\<close> returns without raising; the destination has received, in the
  order read, each line itself or \<^verbatim>\<open>unicode decode error\<close> for a read that raised, each
  write followed by a flush exactly when the destination has a \<^verbatim>\<open>flush\<close> attribute;
  every decode error was logged; and nothing after the empty string was read.
\<close>

theorem relay_forwards_in_order:
  assumes "src r = lines @ rest"
    and "\<forall>x\<in>set lines. readable x"
    and "rest = [] \<or> (\<exists>post. rest = Inr [] # post)"
    and "\<forall>k\<le>length lines. \<not> stop k"
  shows "\<exists>r'. redirect_stream_worker stop r = (None, r')
             \<and> received (dst r')
                 = received (dst r) @ deliveries (has_flush (dst r)) (map forwarded lines)
             \<and> has_flush (dst r') = has_flush (dst r)
             \<and> logged r' = logged r @ decode_errors lines
             \<and> src r' = tl rest"
proof -
  let ?r1 = "r\<lparr>src := rest,
                dst := (dst r)\<lparr>received := received (dst r)
                          @ deliveries (has_flush (dst r)) (map forwarded lines)\<rparr>,
                logged := logged r @ decode_errors lines\<rparr>"
  from assms(4) have before: "\<forall>k<length lines. \<not> stop k" and last: "\<not> stop (length lines)"
    by auto
  have "redirect_stream_worker stop r
          = redirect_stream_worker (\<lambda>k. stop (length lines + k)) ?r1"
    using assms(1,2) before by (rule worker_prefix)
  also have "\<dots> = (None, ?r1\<lparr>src := tl rest\<rparr>)"
    using assms(3) last iteration_end[of ?r1]
    by (subst redirect_stream_worker.simps) auto
  finally show ?thesis by simp
qed

theorem relay_forwards_in_order_witness:
  "\<exists>r'. redirect_stream_worker (\<lambda>k. False) example_relay = (None, r')
        \<and> received (dst r')
            = [Write ''a'', Flush, Write ''unicode decode error'', Flush, Write ''b'', Flush]
        \<and> has_flush (dst r')
        \<and> logged r' = [''bad byte'']
        \<and> src r' = [Inr ''c'']"
proof -
  have 1: "src example_relay
      = [Inr ''a'', Inl (UnicodeDecodeError ''bad byte''), Inr ''b''] @ [Inr [], Inr ''c'']"
    by (simp add: example_relay_def)
  have 2: "\<forall>x\<in>set [Inr ''a'', Inl (UnicodeDecodeError ''bad byte''), Inr ''b'']. readable x"
    by simp
  have 3: "[Inr [], Inr ''c''] = ([] :: source)
           \<or> (\<exists>post. [Inr [], Inr ''c''] = Inr [] # (post :: source))"
    by simp
  have 4: "\<forall>k\<le>length [Inr ''a'', Inl (UnicodeDecodeError ''bad byte''),
                        Inr ''b'' :: py_error + string]. \<not> (\<lambda>k. False) k"
    by simp
  show ?thesis
    using relay_forwards_in_order [OF 1 2 3 4]
    by (simp add: example_relay_def deliveries_def)
qed

text \<open>The interleavings: what holds after every schedule.\<close>

lemma run_schedule_snoc: "run_schedule (sch @ [a]) s = act a (run_schedule sch s)"
  by (simp add: run_schedule_def)

lemma release_step:
  assumes "(main s = Joining \<or> main s = Released) \<longrightarrow> stop_event s"
    and "main s = Released \<longrightarrow> (\<exists>e r'. thread s = Some (Finished e r'))"
  shows "((main (act a s) = Joining \<or> main (act a s) = Released) \<longrightarrow> stop_event (act a s))
       \<and> (main (act a s) = Released \<longrightarrow> (\<exists>e r'. thread (act a s) = Some (Finished e r')))"
  using assms by (cases a) (auto split: main_pc.splits option.splits task.splits)

lemma release_invariant:
  "((main (run_schedule sch (enter r)) = Joining \<or> main (run_schedule sch (enter r)) = Released)
      \<longrightarrow> stop_event (run_schedule sch (enter r)))
   \<and> (main (run_schedule sch (enter r)) = Released
      \<longrightarrow> (\<exists>e r'. thread (run_schedule sch (enter r)) = Some (Finished e r')))"
proof (induction sch rule: rev_induct)
  case Nil
  show ?case by (simp add: run_schedule_def enter_def)
next
  case (snoc a sch)
  then show ?case
    unfolding run_schedule_snoc by (intro release_step) blast+
qed

lemma run_schedule_Cons: "run_schedule (a # sch) s = run_schedule sch (act a s)"
  by (simp add: run_schedule_def)

text \<open>The relay thread, scheduled on its own while the event is clear, ends in the very
  state \<^verbatim>\<open>_redirect_stream\<close> returns when run on its own.\<close>

lemma relay_thread_alone:
  assumes "thread s = Some (Running r)" and "\<not> stop_event s"
  shows "\<exists>n e r'. redirect_stream_worker (\<lambda>k. False) r = (e, r')
            \<and> thread (run_schedule (replicate n RelayThread) s) = Some (Finished e r')"
  using assms
proof (induction "length (src r)" arbitrary: r s rule: less_induct)
  case less
  show ?case
  proof (cases "iteration False r")
    case (Finished e r')
    then have "redirect_stream_worker (\<lambda>k. False) r = (e, r')"
      by (subst redirect_stream_worker.simps) simp
    moreover have "thread (run_schedule (replicate 1 RelayThread) s) = Some (Finished e r')"
      using less.prems Finished by (simp add: run_schedule_def)
    ultimately show ?thesis by blast
  next
    case (Running r1)
    then have shorter: "length (src r1) < length (src r)"
      by (auto simp: iteration_def forward_def readline_def Let_def
            split: if_splits list.splits sum.splits py_error.splits)
    let ?s1 = "act RelayThread s"
    have t1: "thread ?s1 = Some (Running r1)" and f1: "\<not> stop_event ?s1"
      using less.prems Running by simp_all
    from less.hyps[OF shorter t1 f1] obtain n e r' where
      w: "redirect_stream_worker (\<lambda>k. False) r1 = (e, r')" and
      t: "thread (run_schedule (replicate n RelayThread) ?s1) = Some (Finished e r')"
      by blast
    have "redirect_stream_worker (\<lambda>k. False) r = (e, r')"
      using Running w by (subst redirect_stream_worker.simps) simp
    moreover have "thread (run_schedule (replicate (Suc n) RelayThread) s) = Some (Finished e r')"
      using t by (simp add: run_schedule_Cons)
    ultimately show ?thesis by blast
  qed
qed

text \<open>
  Claim C3. The loop asks the stop event before each read: when the event is set at the
  first test nothing is read, and when it is first set at test \<open>length pre\<close> exactly the
  reads \<open>pre\<close> were forwarded and the rest of the source is left unread, whether or not
  the stream is at its end. Leaving the context sets the event and then waits in
  \<^verbatim>\<open>join\<close>, where the main thread does not move while the relay thread runs; in every
  interleaving of the two threads, once the main thread has left, the event is set and the
  relay thread has ended. Once the event is set the relay thread ends at its next step
  without reading, and the main thread then leaves.
\<close>

theorem relay_cancel_and_release:
  "(stop 0 \<longrightarrow> redirect_stream_worker stop r = (None, r))
   \<and> (src r = pre @ rest \<and> (\<forall>x\<in>set pre. readable x)
        \<and> (\<forall>k<length pre. \<not> stop k) \<and> stop (length pre) \<longrightarrow>
        (\<exists>r'. redirect_stream_worker stop r = (None, r')
              \<and> src r' = rest
              \<and> received (dst r')
                  = received (dst r) @ deliveries (has_flush (dst r)) (map forwarded pre)))
   \<and> (main s = InFinally \<longrightarrow>
        main (act MainThread s) = Joining \<and> stop_event (act MainThread s))
   \<and> (main s = Joining \<and> thread s = Some (Running r) \<longrightarrow> act MainThread s = s)
   \<and> (main (run_schedule sch (enter r)) = Joining \<longrightarrow>
        stop_event (run_schedule sch (enter r)))
   \<and> (main (run_schedule sch (enter r)) = Released \<longrightarrow>
        stop_event (run_schedule sch (enter r))
        \<and> (\<exists>e r'. thread (run_schedule sch (enter r)) = Some (Finished e r')))
   \<and> (main s = Joining \<and> stop_event s \<and> thread s = Some (Running r) \<longrightarrow>
        act RelayThread s = s\<lparr>thread := Some (Finished None r)\<rparr>
        \<and> main (act MainThread (act RelayThread s)) = Released)"
proof -
  have a: "redirect_stream_worker stop r = (None, r)" if "stop 0"
    using that by (subst redirect_stream_worker.simps) (simp add: iteration_def)
  have b: "\<exists>r'. redirect_stream_worker stop r = (None, r')
              \<and> src r' = rest
              \<and> received (dst r')
                  = received (dst r) @ deliveries (has_flush (dst r)) (map forwarded pre)"
    if "src r = pre @ rest" "\<forall>x\<in>set pre. readable x"
      "\<forall>k<length pre. \<not> stop k" "stop (length pre)"
  proof -
    let ?r1 = "r\<lparr>src := rest,
                  dst := (dst r)\<lparr>received := received (dst r)
                            @ deliveries (has_flush (dst r)) (map forwarded pre)\<rparr>,
                  logged := logged r @ decode_errors pre\<rparr>"
    have "redirect_stream_worker stop r
            = redirect_stream_worker (\<lambda>k. stop (length pre + k)) ?r1"
      using that(1,2,3) by (rule worker_prefix)
    also have "\<dots> = (None, ?r1)"
      using that(4) by (subst redirect_stream_worker.simps) (simp add: iteration_def)
    finally show ?thesis by simp
  qed
  have c: "main (act MainThread s) = Joining \<and> stop_event (act MainThread s)"
    if "main s = InFinally"
    using that by simp
  have d: "act MainThread s = s" if "main s = Joining" "thread s = Some (Running r)"
    using that by simp
  note inv = release_invariant[of sch r]
  have e: "act RelayThread s = s\<lparr>thread := Some (Finished None r)\<rparr>
        \<and> main (act MainThread (act RelayThread s)) = Released"
    if "main s = Joining" "stop_event s" "thread s = Some (Running r)"
    using that by (simp add: iteration_def)
  from a b c d e inv show ?thesis
    by blast
qed

theorem relay_cancel_and_release_witness:
  "redirect_stream_worker (\<lambda>k. True) example_relay = (None, example_relay)
   \<and> (\<exists>r'. redirect_stream_worker (\<lambda>k. 1 \<le> k) example_relay = (None, r')
          \<and> src r' = [Inl (UnicodeDecodeError ''bad byte''), Inr ''b'', Inr [], Inr ''c'']
          \<and> received (dst r') = [Write ''a'', Flush])
   \<and> main (run_schedule [MainThread, MainThread, MainThread] (enter example_relay)) = Joining
   \<and> stop_event (run_schedule [MainThread, MainThread, MainThread] (enter example_relay))
   \<and> act MainThread (run_schedule [MainThread, MainThread, MainThread] (enter example_relay))
       = run_schedule [MainThread, MainThread, MainThread] (enter example_relay)
   \<and> main (run_schedule [MainThread, MainThread, MainThread, RelayThread, MainThread]
             (enter example_relay)) = Released
   \<and> thread (run_schedule [MainThread, MainThread, MainThread, RelayThread, MainThread]
             (enter example_relay)) = Some (Finished None example_relay)"
proof -
  let ?joining = "run_schedule [MainThread, MainThread, MainThread] (enter example_relay)"
  let ?finally = "run_schedule [MainThread, MainThread] (enter example_relay)"
  have split: "src example_relay
      = [Inr ''a''] @ [Inl (UnicodeDecodeError ''bad byte''), Inr ''b'', Inr [], Inr ''c'']"
    by (simp add: example_relay_def)
  have fin: "main ?finally = InFinally"
    by (simp add: run_schedule_def enter_def)
  have next_step: "?joining = act MainThread ?finally"
    by (simp add: run_schedule_def)
  have join: "main ?joining = Joining"
    by (simp add: run_schedule_def enter_def)
  have runs: "thread ?joining = Some (Running example_relay)"
    by (simp add: run_schedule_def enter_def)
  have last_steps: "run_schedule [MainThread, MainThread, MainThread, RelayThread, MainThread]
             (enter example_relay) = act MainThread (act RelayThread ?joining)"
    by (simp add: run_schedule_def)
  show ?thesis
    using split fin join runs
      relay_cancel_and_release [of "\<lambda>k. True" example_relay "[]" "src example_relay"
        ?finally "[MainThread, MainThread, MainThread]"]
      relay_cancel_and_release [of "\<lambda>k. 1 \<le> k" example_relay "[Inr ''a'']"
        "[Inl (UnicodeDecodeError ''bad byte''), Inr ''b'', Inr [], Inr ''c'']"
        ?joining "[MainThread, MainThread, MainThread, RelayThread, MainThread]"]
    unfolding last_steps next_step [symmetric]
    by (simp add: deliveries_def example_relay_def)
qed

section \<open>Properties of the process supervisor\<close>

declare relay_thread.simps [simp del]

text \<open>The wait loop: without a timeout it returns as soon as the child has ended; with a
  timeout it writes one heartbeat for each wait that times out.\<close>

lemma wait_loop_unbounded:
  "exit_time sub_p = Some ended \<Longrightarrow>
     wait_loop sub_p None out msg fl cost now evs = Some (returncode sub_p, evs)"
  by (subst wait_loop.simps) (simp add: wait_def)

lemma wait_loop_beats:
  assumes "exit_time sub_p = Some ended"
    and "\<forall>k<n. now + k * (period + cost) + period < ended"
    and "ended \<le> now + n * (period + cost) + period"
  shows "wait_loop sub_p (Some period) out msg fl cost now evs
           = Some (returncode sub_p, evs @ concat (replicate n (beat out msg fl)))"
  using assms(2,3)
proof (induction n arbitrary: now evs)
  case 0
  then show ?case
    using assms(1) by (subst wait_loop.simps) (simp add: wait_def)
next
  case (Suc n)
  from Suc.prems(1) have first: "now + period < ended"
    by (metis add.right_neutral mult_zero_left zero_less_Suc)
  have later: "\<forall>k<n. (now + period + cost) + k * (period + cost) + period < ended"
  proof (intro allI impI)
    fix k assume "k < n"
    then have "Suc k < Suc n" by simp
    then have "now + Suc k * (period + cost) + period < ended"
      using Suc.prems(1) by blast
    then show "(now + period + cost) + k * (period + cost) + period < ended"
      by (simp add: algebra_simps)
  qed
  have last: "ended \<le> (now + period + cost) + n * (period + cost) + period"
    using Suc.prems(2) by (simp add: algebra_simps)
  have "wait_loop sub_p (Some period) out msg fl cost (now + period + cost)
          (evs @ beat out msg fl)
        = Some (returncode sub_p,
                (evs @ beat out msg fl) @ concat (replicate n (beat out msg fl)))"
    using later last by (rule Suc.IH)
  then show ?case
    using assms(1) first
    by (subst wait_loop.simps) (simp add: wait_def beat_def)
qed

text \<open>A relay thread whose pipe closes is \<^verbatim>\<open>_redirect_stream\<close> on a source that ends, and
  so it ends.\<close>

lemma relay_thread_closing:
  "relay_thread True stop r = Some (redirect_stream_worker stop r)"
proof (induction "length (src r)" arbitrary: r stop rule: less_induct)
  case less
  show ?case
  proof (cases "iteration (stop 0) r")
    case (Finished e r')
    then show ?thesis
      by (subst relay_thread.simps, subst redirect_stream_worker.simps) simp
  next
    case (Running r')
    then have "length (src r') < length (src r)"
      by (auto simp: iteration_def forward_def readline_def Let_def
            split: if_splits list.splits sum.splits py_error.splits)
    then have "relay_thread True (\<lambda>k. stop (Suc k)) r'
                 = Some (redirect_stream_worker (\<lambda>k. stop (Suc k)) r')"
      by (rule less.hyps)
    with Running show ?thesis
      by (subst relay_thread.simps, subst redirect_stream_worker.simps) simp
  qed
qed

lemma join_relay_closing:
  "closes (feed_of sub_p pi) \<Longrightarrow> \<exists>delivered. join_relay h sub_p pi sink = Some delivered"
  by (simp add: join_relay_def relay_thread_closing split: prod.splits)

text \<open>A relay thread that has found its event clear and waits in \<^verbatim>\<open>readline()\<close> on a
  pipe that stays open and silent never ends.\<close>

lemma relay_thread_blocked:
  "\<not> stop 0 \<Longrightarrow> src r = [] \<Longrightarrow> relay_thread False stop r = None"
  by (subst relay_thread.simps) simp

lemma example_joins:
  "join_relay example_host sleeping_child ChildStderr SysStderr = Some []"
  "join_relay example_host sleeping_child ChildStdout (Given ''log'')
     = Some [Write (''done'' @ [CHR 0x0A]), Flush]"
  "join_relay example_host orphaning_child ChildStderr SysStderr = Some []"
  "join_relay example_host orphaning_child ChildStdout (Given ''log'') = None"
  by (simp_all add: join_relay_def feed_of_def sleeping_child_def orphaning_child_def
        example_host_def set_at_def relay_thread.simps iteration_def readline_def forward_def
        sink_write_def sink_flush_def)

text \<open>
  Claim C1 says that \<^verbatim>\<open>run_subprocess\<close> returns the exit code when the process
  terminates. The command \<^verbatim>\<open>daemon\<close> of the example host starts, and its process ends at
  once with code 7; a descendant keeps the output pipe open and silent, the relay thread
  waits in \<^verbatim>\<open>readline()\<close>, \<^verbatim>\<open>t.join()\<close> does not return, and neither does
  \<^verbatim>\<open>run_subprocess\<close>.
\<close>

theorem run_subprocess_blocked_counterexample:
  "popen example_host ''daemon'' None False = Inr orphaning_child
   \<and> exit_time orphaning_child = Some 0
   \<and> returncode orphaning_child = 7
   \<and> run_subprocess example_host ''daemon'' None (Some ''log'') None False (Some 1) None = None
   \<and> run_subprocess example_host ''daemon'' None (Some ''log'') None False None None = None"
proof -
  have started: "popen example_host ''daemon'' None False = Inr orphaning_child"
    by (simp add: example_host_def)
  have ended: "exit_time orphaning_child = Some 0" "returncode orphaning_child = 7"
    by (simp_all add: orphaning_child_def)
  have timed: "wait_loop orphaning_child (Some period) out msg fl cost 0 evs = Some (7, evs)"
    for out :: "string target" and period msg fl cost evs
    using ended by (subst wait_loop.simps) (simp add: wait_def)
  have untimed: "wait_loop orphaning_child None out msg fl cost 0 evs = Some (7, evs)"
    for out :: "string target" and msg fl cost evs
    using ended by (subst wait_loop.simps) (simp add: wait_def)
  show ?thesis
    by (simp add: run_subprocess_def Let_def started ended timed untimed example_joins)
qed

text \<open>
  Claim C1, amended. Let the command start, and let the process end at time \<open>ended\<close>.
  Each wait is given \<^verbatim>\<open>beat_freq\<close> as its timeout; let \<open>n\<close> waits time out before the
  process ends (the wait after the \<open>k\<close>-th heartbeat runs from \<open>k * (period + beat_time)\<close>
  for \<open>period\<close>). Then, provided both relay threads end when they are joined (as they do
  when both pipes reach their end), \<^verbatim>\<open>run_subprocess\<close> returns the exit code (zero or
  not, as a result), and between starting and stopping the relays the main thread has,
  \<open>n\<close> times, written the message (by default \<^verbatim>\<open>subprocess is still running\<close> and a
  newline) to the output sink and flushed \<^verbatim>\<open>sys.stdout\<close> when that has a \<^verbatim>\<open>flush\<close>
  attribute; without a period it returns the exit code and has written no heartbeat. When
  a relay thread never ends, \<^verbatim>\<open>run_subprocess\<close> does not return.
\<close>

theorem run_subprocess_heartbeat:
  fixes stdout stderr :: "'a option" and h :: "('c, 'a) host" and message :: "string option"
  defines "out \<equiv> (case stdout of None \<Rightarrow> SysStdout | Some s \<Rightarrow> Given s)"
    and "err \<equiv> (case stderr of None \<Rightarrow> SysStderr | Some s \<Rightarrow> Given s)"
    and "msg \<equiv> (case message of
                   None \<Rightarrow> ''subprocess is still running'' @ [CHR 0x0A]
                 | Some m \<Rightarrow> m)"
  assumes started: "popen h command cwd shell = Inr sub_p"
    and ends: "exit_time sub_p = Some ended"
    and timeouts: "\<forall>k<n. k * (period + beat_time h) + period < ended"
    and last: "ended \<le> n * (period + beat_time h) + period"
  shows "(join_relay h sub_p ChildStderr err = Some err_delivered
          \<and> join_relay h sub_p ChildStdout out = Some out_delivered \<longrightarrow>
            run_subprocess h command cwd stdout stderr shell (Some period) message =
              Some (Inr (returncode sub_p),
                    [SetSysEncoding (host_encoding h), PopenEnter,
                     RelayStart ChildStdout out, RelayStart ChildStderr err]
                    @ concat (replicate n
                        (SinkWrite out msg
                         # (if has_flush_attr h SysStdout then [SysStdoutFlush] else [])))
                    @ [StopEventSet ChildStderr, RelayJoin ChildStderr err_delivered,
                       StopEventSet ChildStdout, RelayJoin ChildStdout out_delivered,
                       PopenExit])
            \<and> run_subprocess h command cwd stdout stderr shell None message =
              Some (Inr (returncode sub_p),
                    [SetSysEncoding (host_encoding h), PopenEnter,
                     RelayStart ChildStdout out, RelayStart ChildStderr err,
                     StopEventSet ChildStderr, RelayJoin ChildStderr err_delivered,
                     StopEventSet ChildStdout, RelayJoin ChildStdout out_delivered,
                     PopenExit]))
       \<and> (closes (stderr_feed sub_p) \<and> closes (stdout_feed sub_p) \<longrightarrow>
            (\<exists>e_d o_d. join_relay h sub_p ChildStderr err = Some e_d
                      \<and> join_relay h sub_p ChildStdout out = Some o_d))
       \<and> (join_relay h sub_p ChildStderr err = None
          \<or> join_relay h sub_p ChildStdout out = None \<longrightarrow>
            run_subprocess h command cwd stdout stderr shell (Some period) message = None
            \<and> run_subprocess h command cwd stdout stderr shell None message = None)"
proof -
  from timeouts last
  have t: "\<forall>k<n. 0 + k * (period + beat_time h) + period < ended"
    and l: "ended \<le> 0 + n * (period + beat_time h) + period"
    by simp_all
  note timed = wait_loop_beats [OF ends t l, unfolded beat_def]
  note untimed = wait_loop_unbounded [OF ends]
  have 1: "run_subprocess h command cwd stdout stderr shell (Some period) message =
              Some (Inr (returncode sub_p),
                    [SetSysEncoding (host_encoding h), PopenEnter,
                     RelayStart ChildStdout out, RelayStart ChildStderr err]
                    @ concat (replicate n
                        (SinkWrite out msg
                         # (if has_flush_attr h SysStdout then [SysStdoutFlush] else [])))
                    @ [StopEventSet ChildStderr, RelayJoin ChildStderr err_delivered,
                       StopEventSet ChildStdout, RelayJoin ChildStdout out_delivered,
                       PopenExit])"
    if "join_relay h sub_p ChildStderr err = Some err_delivered"
      "join_relay h sub_p ChildStdout out = Some out_delivered"
    using that
    by (simp add: run_subprocess_def started timed out_def [symmetric] err_def [symmetric]
          msg_def [symmetric])
  have 2: "run_subprocess h command cwd stdout stderr shell None message =
              Some (Inr (returncode sub_p),
                    [SetSysEncoding (host_encoding h), PopenEnter,
                     RelayStart ChildStdout out, RelayStart ChildStderr err,
                     StopEventSet ChildStderr, RelayJoin ChildStderr err_delivered,
                     StopEventSet ChildStdout, RelayJoin ChildStdout out_delivered,
                     PopenExit])"
    if "join_relay h sub_p ChildStderr err = Some err_delivered"
      "join_relay h sub_p ChildStdout out = Some out_delivered"
    using that
    by (simp add: run_subprocess_def started untimed out_def [symmetric] err_def [symmetric]
          msg_def [symmetric])
  have 3: "\<exists>e_d o_d. join_relay h sub_p ChildStderr err = Some e_d
                      \<and> join_relay h sub_p ChildStdout out = Some o_d"
    if "closes (stderr_feed sub_p)" "closes (stdout_feed sub_p)"
    using that join_relay_closing [of sub_p ChildStderr h err]
      join_relay_closing [of sub_p ChildStdout h out]
    by (auto simp: feed_of_def)
  have 4: "run_subprocess h command cwd stdout stderr shell (Some period) message = None
            \<and> run_subprocess h command cwd stdout stderr shell None message = None"
    if "join_relay h sub_p ChildStderr err = None \<or> join_relay h sub_p ChildStdout out = None"
    using that
    by (auto simp: run_subprocess_def started timed untimed out_def [symmetric]
          err_def [symmetric] msg_def [symmetric] split: option.splits)
  from 1 2 3 4 show ?thesis by blast
qed

theorem run_subprocess_heartbeat_witness:
  "run_subprocess example_host ''sleep'' None (Some ''log'') None False (Some 1) None =
     Some (Inr 3,
           [SetSysEncoding ''latin-1'', PopenEnter,
            RelayStart ChildStdout (Given ''log''), RelayStart ChildStderr SysStderr,
            SinkWrite (Given ''log'') (''subprocess is still running'' @ [CHR 0x0A]),
            SysStdoutFlush,
            SinkWrite (Given ''log'') (''subprocess is still running'' @ [CHR 0x0A]),
            SysStdoutFlush,
            StopEventSet ChildStderr, RelayJoin ChildStderr [],
            StopEventSet ChildStdout,
            RelayJoin ChildStdout [Write (''done'' @ [CHR 0x0A]), Flush], PopenExit])
   \<and> run_subprocess example_host ''sleep'' None (Some ''log'') None False None None =
     Some (Inr 3,
           [SetSysEncoding ''latin-1'', PopenEnter,
            RelayStart ChildStdout (Given ''log''), RelayStart ChildStderr SysStderr,
            StopEventSet ChildStderr, RelayJoin ChildStderr [],
            StopEventSet ChildStdout,
            RelayJoin ChildStdout [Write (''done'' @ [CHR 0x0A]), Flush], PopenExit])
   \<and> closes (stderr_feed sleeping_child) \<and> closes (stdout_feed sleeping_child)
   \<and> (\<exists>e_d o_d. join_relay example_host sleeping_child ChildStderr SysStderr = Some e_d
                 \<and> join_relay example_host sleeping_child ChildStdout (Given ''log'')
                     = Some o_d)
   \<and> join_relay example_host orphaning_child ChildStdout (Given ''log'') = None
   \<and> run_subprocess example_host ''daemon'' None (Some ''log'') None False (Some 1) None
       = None"
proof -
  have started: "popen example_host ''sleep'' None False = Inr sleeping_child"
    by (simp add: example_host_def)
  have ends: "exit_time sleeping_child = Some 3"
    by (simp add: sleeping_child_def)
  have timeouts: "\<forall>k<2. k * (1 + beat_time example_host) + 1 < (3 :: nat)"
    by (simp add: example_host_def less_Suc_eq numeral_2_eq_2)
  have last: "(3 :: nat) \<le> 2 * (1 + beat_time example_host) + 1"
    by (simp add: example_host_def)
  have joins: "join_relay example_host sleeping_child ChildStderr
                 (case None of None \<Rightarrow> SysStderr | Some s \<Rightarrow> Given s) = Some []
               \<and> join_relay example_host sleeping_child ChildStdout
                 (case Some ''log'' of None \<Rightarrow> SysStdout | Some s \<Rightarrow> Given s)
                 = Some [Write (''done'' @ [CHR 0x0A]), Flush]"
    by (simp add: example_joins)
  have closing: "closes (stderr_feed sleeping_child) \<and> closes (stdout_feed sleeping_child)"
    by (simp add: sleeping_child_def)
  have two: "replicate 2 x = [x, x]" for x :: "string event list"
    by (simp add: numeral_2_eq_2)
  have code: "returncode sleeping_child = 3"
    by (simp add: sleeping_child_def)
  have host: "host_encoding example_host = ''latin-1''" "has_flush_attr example_host SysStdout"
    by (simp_all add: example_host_def)
  note sleep = run_subprocess_heartbeat [OF started ends timeouts last,
        where stdout = "Some ''log''" and stderr = None and message = None]
  have 1: "run_subprocess example_host ''sleep'' None (Some ''log'') None False (Some 1) None =
     Some (Inr 3,
           [SetSysEncoding ''latin-1'', PopenEnter,
            RelayStart ChildStdout (Given ''log''), RelayStart ChildStderr SysStderr,
            SinkWrite (Given ''log'') (''subprocess is still running'' @ [CHR 0x0A]),
            SysStdoutFlush,
            SinkWrite (Given ''log'') (''subprocess is still running'' @ [CHR 0x0A]),
            SysStdoutFlush,
            StopEventSet ChildStderr, RelayJoin ChildStderr [],
            StopEventSet ChildStdout,
            RelayJoin ChildStdout [Write (''done'' @ [CHR 0x0A]), Flush], PopenExit])
   \<and> run_subprocess example_host ''sleep'' None (Some ''log'') None False None None =
     Some (Inr 3,
           [SetSysEncoding ''latin-1'', PopenEnter,
            RelayStart ChildStdout (Given ''log''), RelayStart ChildStderr SysStderr,
            StopEventSet ChildStderr, RelayJoin ChildStderr [],
            StopEventSet ChildStdout,
            RelayJoin ChildStdout [Write (''done'' @ [CHR 0x0A]), Flush], PopenExit])"
    using sleep [THEN conjunct1, THEN mp, OF joins]
    by (simp add: two code host)
  have 2: "\<exists>e_d o_d. join_relay example_host sleeping_child ChildStderr SysStderr = Some e_d
                 \<and> join_relay example_host sleeping_child ChildStdout (Given ''log'')
                     = Some o_d"
    using sleep [THEN conjunct2, THEN conjunct1, THEN mp, OF closing]
    by simp
  have started': "popen example_host ''daemon'' None False = Inr orphaning_child"
    by (simp add: example_host_def)
  have ends': "exit_time orphaning_child = Some 0"
    by (simp add: orphaning_child_def)
  have timeouts': "\<forall>k<0. k * (1 + beat_time example_host) + 1 < (0 :: nat)"
    by simp
  have last': "(0 :: nat) \<le> 0 * (1 + beat_time example_host) + 1"
    by simp
  have blocked: "join_relay example_host orphaning_child ChildStdout (Given ''log'') = None"
    by (simp add: example_joins)
  then have blocked': "join_relay example_host orphaning_child ChildStderr
                 (case None of None \<Rightarrow> SysStderr | Some s \<Rightarrow> Given s) = None
               \<or> join_relay example_host orphaning_child ChildStdout
                 (case Some ''log'' of None \<Rightarrow> SysStdout | Some s \<Rightarrow> Given s) = None"
    by simp
  have 3: "run_subprocess example_host ''daemon'' None (Some ''log'') None False (Some 1) None
       = None"
    using run_subprocess_heartbeat [OF started' ends' timeouts' last',
        where stdout = "Some ''log''" and stderr = None and message = None,
        THEN conjunct2, THEN conjunct2, THEN mp, OF blocked', THEN conjunct1] .
  from 1 closing 2 blocked 3 show ?thesis by (intro conjI) simp_all
qed

text \<open>
  Claim C4. When \<^verbatim>\<open>subprocess.Popen\<close> raises because the command cannot be started,
  \<^verbatim>\<open>run_subprocess\<close> raises that error, and the main thread has started no relay and
  written to no sink: all it has done is set \<^verbatim>\<open>sys.encoding\<close>.
\<close>

theorem run_subprocess_start_failure:
  assumes "popen h command cwd shell = Inl e"
  shows "\<exists>events. run_subprocess h command cwd stdout stderr shell beat_freq message
                    = Some (Inl e, events)
           \<and> events = [SetSysEncoding (host_encoding h)]
           \<and> (\<forall>pi tg. RelayStart pi tg \<notin> set events)
           \<and> (\<forall>tg m. SinkWrite tg m \<notin> set events)"
  using assms by (simp add: run_subprocess_def Let_def)

theorem run_subprocess_start_failure_witness:
  "run_subprocess example_host ''no-such-program'' None (Some ''log'') None False
       (Some (1 :: nat)) None
     = Some (Inl (FileNotFoundError ''no-such-program''), [SetSysEncoding ''latin-1''])"
proof -
  have failed: "popen example_host ''no-such-program'' None False
                  = Inl (FileNotFoundError ''no-such-program'')"
    by (simp add: example_host_def)
  show ?thesis
    using run_subprocess_start_failure [OF failed, of "Some ''log''" None "Some (1 :: nat)" None]
    by (auto simp: example_host_def)
qed

text \<open>For a child that never ends, \<^verbatim>\<open>run_subprocess\<close> never returns.\<close>

lemma wait_loop_Some:
  "wait_loop sub_p bf out msg fl cost now evs = Some y \<Longrightarrow> \<exists>ended. exit_time sub_p = Some ended"
  by (rule wait_loop.raw_induct
        [where P = "\<lambda>sub_p bf out msg fl cost now evs y. \<exists>ended. exit_time sub_p = Some ended"])
    (fastforce simp: wait_def split: option.splits wait_outcome.splits prod.splits if_splits)

lemma run_subprocess_never_returns:
  fixes stdout :: "'a option"
  assumes a: "popen h command cwd shell = Inr sub_p" and b: "exit_time sub_p = None"
  shows "run_subprocess h command cwd stdout stderr shell beat_freq message = None"
proof -
  have "wait_loop sub_p beat_freq out msg fl cost now evs = None"
    for out msg fl cost now and evs :: "'a event list"
    using wait_loop_Some[of sub_p beat_freq out msg fl cost now evs] b
    by (cases "wait_loop sub_p beat_freq out msg fl cost now evs") auto
  then show ?thesis by (simp add: run_subprocess_def a Let_def)
qed

end
